theory Spec2Isabelle
  imports Main
begin

section \<open>Strings as the agent uses them\<close>

text \<open>
  The source is \<^verbatim>\<open>src/lib/agent-architecture/agents/general-agent.ts\<close>.
  A JavaScript string is modelled as a \<^typ>\<open>string\<close> (a list of 8-bit characters);
  the model covers ASCII text, which is what every literal of the source is.
  An optional value (\<^verbatim>\<open>string | undefined\<close>, \<^verbatim>\<open>string | null\<close>) is a
  \<^typ>\<open>string option\<close>, \<open>None\<close> standing for \<^verbatim>\<open>undefined\<close> or \<^verbatim>\<open>null\<close>.
\<close>

text \<open>Truthiness of an optional string: \<^verbatim>\<open>undefined\<close>, \<^verbatim>\<open>null\<close> and \<^verbatim>\<open>""\<close> are falsy.\<close>

fun truthy :: "string option \<Rightarrow> bool" where
  "truthy None = False"
| "truthy (Some s) = (s \<noteq> [])"

text \<open>\<^verbatim>\<open>a || b\<close>: the first operand when it is truthy, the second otherwise.\<close>

definition js_or :: "string option \<Rightarrow> string option \<Rightarrow> string option" where
  "js_or a b = (if truthy a then a else b)"

text \<open>What a template literal \<^verbatim>\<open>${x}\<close> prints for an optional string.\<close>

fun render :: "string option \<Rightarrow> string" where
  "render None = ''undefined''"
| "render (Some s) = s"

text \<open>\<^verbatim>\<open>String.prototype.toLowerCase\<close> on ASCII text.\<close>

definition toLowerChar :: "char \<Rightarrow> char" where
  "toLowerChar c =
     (case map_of (zip ''ABCDEFGHIJKLMNOPQRSTUVWXYZ'' ''abcdefghijklmnopqrstuvwxyz'') c of
        Some l \<Rightarrow> l
      | None \<Rightarrow> c)"

definition toLowerCase :: "string \<Rightarrow> string" where
  "toLowerCase s = map toLowerChar s"

text \<open>\<^verbatim>\<open>s.includes(p)\<close>: \<open>p\<close> occurs in \<open>s\<close> as a contiguous substring.\<close>

fun startsWith :: "string \<Rightarrow> string \<Rightarrow> bool" where
  "startsWith s [] = True"
| "startsWith [] (p # ps) = False"
| "startsWith (c # cs) (p # ps) = (c = p \<and> startsWith cs ps)"

fun str_includes :: "string \<Rightarrow> string \<Rightarrow> bool" where
  "str_includes [] p = (p = [])"
| "str_includes (c # cs) p = (startsWith (c # cs) p \<or> str_includes cs p)"

text \<open>\<^verbatim>\<open>parts.join(sep)\<close>.\<close>

fun join :: "string \<Rightarrow> string list \<Rightarrow> string" where
  "join sep [] = []"
| "join sep [x] = x"
| "join sep (x # y # ys) = x @ sep @ join sep (y # ys)"

text \<open>\<^verbatim>\<open>s.split(c)\<close> for a one-character separator: never empty, \<^verbatim>\<open>"".split("/")\<close> is \<^verbatim>\<open>[""]\<close>.\<close>

fun split :: "char \<Rightarrow> string \<Rightarrow> string list" where
  "split sep [] = [[]]"
| "split sep (c # cs) =
     (if c = sep then [] # split sep cs
      else (case split sep cs of
              [] \<Rightarrow> [[c]]
            | part # parts \<Rightarrow> (c # part) # parts))"

text \<open>The ASCII characters matched by \<^verbatim>\<open>\s\<close> and by \<^verbatim>\<open>\w\<close>.\<close>

definition isSpace :: "char \<Rightarrow> bool" where
  "isSpace c = (c \<in> set [CHR '' '', CHR 0x09, CHR 0x0A, CHR 0x0B, CHR 0x0C, CHR 0x0D])"

definition isWordChar :: "char \<Rightarrow> bool" where
  "isWordChar c =
     (c \<in> set ''abcdefghijklmnopqrstuvwxyzABCDEFGHIJKLMNOPQRSTUVWXYZ0123456789_'')"

text \<open>
  \<^verbatim>\<open>s.split(/\s+/)\<close>: the flag says whether the previous character was white space, so
  that a run of white space separates once.
\<close>

fun splitSpaces :: "bool \<Rightarrow> string \<Rightarrow> string list" where
  "splitSpaces inRun [] = [[]]"
| "splitSpaces inRun (c # cs) =
     (if isSpace c then (if inRun then splitSpaces True cs else [] # splitSpaces True cs)
      else (case splitSpaces False cs of
              [] \<Rightarrow> [[c]]
            | part # parts \<Rightarrow> (c # part) # parts))"

text \<open>\<^verbatim>\<open>s.replace(/\s+/g, '-')\<close>: every run of white space becomes one hyphen.\<close>

fun replaceSpaces :: "bool \<Rightarrow> string \<Rightarrow> string" where
  "replaceSpaces inRun [] = []"
| "replaceSpaces inRun (c # cs) =
     (if isSpace c then (if inRun then replaceSpaces True cs else CHR ''-'' # replaceSpaces True cs)
      else c # replaceSpaces False cs)"

section \<open>Field classifier\<close>

text \<open>
  Modelled from the spec: the type \<^verbatim>\<open>EnrichmentField\<close> of \<^verbatim>\<open>../core/types\<close>, which
  is not among the sources. The spec gives it as \<^verbatim>\<open>{name: string, description: string}\<close>
  plus metadata of the caller, which is the record's extension; the agent reads the two
  strings only.
\<close>

record EnrichmentField =
  name :: string
  description :: string

definition executiveTitles :: "string list" where
  "executiveTitles =
     [''ceo'', ''cto'', ''cfo'', ''coo'', ''cmo'', ''cpo'', ''chief'', ''founder'',
      ''president'', ''director'']"

definition isExecutiveField :: "'a EnrichmentField_scheme \<Rightarrow> bool" where
  "isExecutiveField field =
     (let nm = toLowerCase (name field);
          desc = toLowerCase (description field)
      in list_ex (\<lambda>title. str_includes nm title \<or> str_includes desc title) executiveTitles)"

definition hasExecutiveFields :: "'a EnrichmentField_scheme list \<Rightarrow> bool" where
  "hasExecutiveFields flds = list_ex isExecutiveField flds"

definition extractTitle :: "'a EnrichmentField_scheme \<Rightarrow> string" where
  "extractTitle field =
     (let nm = toLowerCase (name field);
          desc = toLowerCase (description field)
      in if str_includes nm ''ceo'' \<or> str_includes desc ''chief executive'' then ''CEO''
         else if str_includes nm ''cto'' \<or> str_includes desc ''chief technology'' then ''CTO''
         else if str_includes nm ''cfo'' \<or> str_includes desc ''chief financial'' then ''CFO''
         else if str_includes nm ''coo'' \<or> str_includes desc ''chief operating'' then ''COO''
         else if str_includes nm ''cmo'' \<or> str_includes desc ''chief marketing'' then ''CMO''
         else if str_includes nm ''cpo'' \<or> str_includes desc ''chief product'' then ''CPO''
         else if str_includes nm ''founder'' then ''founder''
         else if str_includes nm ''president'' then ''president''
         else name field)"

definition stopWords :: "string list" where
  "stopWords = [''this'', ''that'', ''what'', ''when'', ''where'', ''which'']"

definition getSearchTermsForField :: "'a EnrichmentField_scheme \<Rightarrow> string" where
  "getSearchTermsForField field =
     (let terms = [name field];
          keyPhrases =
            filter (\<lambda>word. length word > 3 \<and> word \<notin> set stopWords)
              (splitSpaces False
                 (map (\<lambda>c. if isWordChar c \<or> isSpace c then c else CHR '' '')
                    (toLowerCase (description field))))
      in join '' ''
           (if description field \<noteq> [] then terms @ take 3 keyPhrases else terms))"

text \<open>
  The if-chain of \<^verbatim>\<open>extractTitle\<close> read as an ordered rule table: the pattern looked
  for in the lower-cased name, the pattern looked for in the lower-cased description (when
  the rule has one), and the label.
\<close>

definition titleRules :: "(string \<times> string option \<times> string) list" where
  "titleRules =
     [(''ceo'', Some ''chief executive'', ''CEO''),
      (''cto'', Some ''chief technology'', ''CTO''),
      (''cfo'', Some ''chief financial'', ''CFO''),
      (''coo'', Some ''chief operating'', ''COO''),
      (''cmo'', Some ''chief marketing'', ''CMO''),
      (''cpo'', Some ''chief product'', ''CPO''),
      (''founder'', None, ''founder''),
      (''president'', None, ''president'')]"

fun ruleFires :: "'a EnrichmentField_scheme \<Rightarrow> string \<times> string option \<times> string \<Rightarrow> bool" where
  "ruleFires field (namePattern, None, label) =
     str_includes (toLowerCase (name field)) namePattern"
| "ruleFires field (namePattern, Some descPattern, label) =
     (str_includes (toLowerCase (name field)) namePattern \<or>
      str_includes (toLowerCase (description field)) descPattern)"

definition firstMatch :: "'a EnrichmentField_scheme \<Rightarrow> string" where
  "firstMatch field =
     (case find (ruleFires field) titleRules of
        Some (namePattern, descPattern, label) \<Rightarrow> label
      | None \<Rightarrow> name field)"

text \<open>
  The rule table as the specification words it: one pattern per rule, looked for in the
  name and in the description alike.
\<close>

definition canonicalTitle_spec :: "'a EnrichmentField_scheme \<Rightarrow> string" where
  "canonicalTitle_spec field =
     (case find (\<lambda>(pattern, label).
                   str_includes (toLowerCase (name field)) pattern \<or>
                   str_includes (toLowerCase (description field)) pattern)
             [(''ceo'', ''CEO''), (''cto'', ''CTO''), (''cfo'', ''CFO''), (''coo'', ''COO''),
              (''cmo'', ''CMO''), (''cpo'', ''CPO''), (''founder'', ''founder''),
              (''president'', ''president'')] of
        Some (pattern, label) \<Rightarrow> label
      | None \<Rightarrow> name field)"

definition canonicalLabels :: "string list" where
  "canonicalLabels = map (\<lambda>(namePattern, descPattern, label). label) titleRules"

section \<open>Query synthesizer\<close>

text \<open>
  \<^verbatim>\<open>new URL(s).pathname\<close> is the platform's URL parser, not code of the agent. It is
  a parameter \<open>urlPathname\<close> of the model: \<open>None\<close> when the constructor throws (the string
  is not a parseable absolute URL), the path otherwise.
\<close>

type_synonym url_parser = "string \<Rightarrow> string option"

definition pathParts :: "string \<Rightarrow> string list" where
  "pathParts pathname = filter (\<lambda>part. length part > 0) (split CHR ''/'' pathname)"

definition extractLinkedInCompanyName :: "url_parser \<Rightarrow> string \<Rightarrow> string" where
  "extractLinkedInCompanyName urlPathname linkedinUrl =
     (case urlPathname linkedinUrl of
        None \<Rightarrow> []
      | Some pathname \<Rightarrow>
          (case pathParts pathname of
             part0 # part1 # rest \<Rightarrow>
               if part0 = ''company'' \<and> part1 \<noteq> []
               then map (\<lambda>c. if c = CHR ''-'' then CHR '' '' else c) part1
               else []
           | _ \<Rightarrow> []))"

text \<open>A term between double quotes, as the query templates write \<^verbatim>\<open>"${x}"\<close>.\<close>

definition quoted :: "string \<Rightarrow> string" where
  "quoted s = CHR 0x22 # s @ [CHR 0x22]"

definition buildLinkedInFirstQueries ::
  "url_parser \<Rightarrow> 'a EnrichmentField_scheme list \<Rightarrow> string option \<Rightarrow> string option \<Rightarrow>
   string option \<Rightarrow> string list" where
  "buildLinkedInFirstQueries urlPathname flds companyName companyDomain companyLinkedInUrl =
     (let executiveFields = filter isExecutiveField flds;
          otherFields = filter (\<lambda>f. \<not> isExecutiveField f) flds;
          titles = filter (\<lambda>t. t \<noteq> []) (map extractTitle executiveFields)
      in (if length executiveFields > 0
          then (case companyLinkedInUrl of
                  None \<Rightarrow> []
                | Some linkedinUrl \<Rightarrow>
                    if linkedinUrl \<noteq> []
                    then [''site:linkedin.com/in '' @
                            quoted (extractLinkedInCompanyName urlPathname linkedinUrl) @
                            '' '' @ join '' OR '' titles,
                          ''site:linkedin.com/in '' @ quoted (render companyName) @
                            '' '' @ join '' OR '' titles]
                    else [])
               @ (if truthy companyName
                  then map (\<lambda>title. ''site:linkedin.com/in '' @ quoted title @ '' '' @
                                       quoted (render companyName) @ '' current'') titles
                       @ [''site:linkedin.com/in '' @ quoted (render companyName) @
                            '' leadership team'',
                          ''site:linkedin.com/in '' @ quoted (render companyName) @
                            '' executives'']
                  else [])
               @ (if truthy companyDomain
                  then [''site:'' @ render companyDomain @ '' team leadership about executives'',
                        ''site:'' @ render companyDomain @ '' about-us'']
                  else [])
               @ (if truthy companyName
                  then [quoted (render companyName) @ '' '' @ join '' '' titles @ '' 2025'']
                  else [])
          else [])
         @ concat
             (map (\<lambda>field.
                     (if truthy companyName
                      then [quoted (render companyName) @ '' '' @ getSearchTermsForField field]
                      else [])
                     @ (if truthy companyDomain
                        then [''site:'' @ render companyDomain @ '' '' @
                                getSearchTermsForField field]
                        else []))
                otherFields))"

text \<open>
  A parser for URLs of the shape \<open>scheme://authority/path\<close> with an optional query or
  fragment, to run the model on concrete URLs: the path runs from the first slash after
  the authority to the first \<open>?\<close> or \<open>#\<close>, and is \<open>/\<close> when there is none.
\<close>

fun afterScheme :: "string \<Rightarrow> string option" where
  "afterScheme (c1 # c2 # c3 # cs) =
     (if c1 = CHR '':'' \<and> c2 = CHR ''/'' \<and> c3 = CHR ''/'' then Some cs
      else if c1 \<in> set ''/?#:'' then None
      else afterScheme (c2 # c3 # cs))"
| "afterScheme cs = None"

definition schemeHostPath :: url_parser where
  "schemeHostPath s =
     (case s of
        [] \<Rightarrow> None
      | c # cs \<Rightarrow>
          if c \<in> set ''/?#:'' then None
          else (case afterScheme (c # cs) of
                  None \<Rightarrow> None
                | Some rest \<Rightarrow>
                    (let authority = takeWhile (\<lambda>c. c \<notin> set ''/?#'') rest;
                         path = takeWhile (\<lambda>c. c \<notin> set ''?#'')
                                  (dropWhile (\<lambda>c. c \<notin> set ''/?#'') rest)
                     in if authority = [] then None
                        else if path = [] then Some ''/'' else Some path)))"

section \<open>Evidence ranker and merger\<close>

record SearchResult =
  url :: string
  title :: "string option"
  markdown :: "string option"
  content :: "string option"

definition isLinkedIn :: "'a SearchResult_scheme \<Rightarrow> bool" where
  "isLinkedIn r =
     (str_includes (url r) ''linkedin.com/in'' \<or> str_includes (url r) ''linkedin.com/company'')"

text \<open>\<^verbatim>\<open>companyDomain && r.url.includes(companyDomain)\<close>, read as a condition.\<close>

definition isCompanySite :: "string option \<Rightarrow> 'a SearchResult_scheme \<Rightarrow> bool" where
  "isCompanySite companyDomain r =
     (case companyDomain of
        None \<Rightarrow> False
      | Some domain \<Rightarrow> domain \<noteq> [] \<and> str_includes (url r) domain)"

text \<open>The comparator handed to \<^verbatim>\<open>sort\<close>.\<close>

definition compareResults ::
  "string option \<Rightarrow> 'a SearchResult_scheme \<Rightarrow> 'a SearchResult_scheme \<Rightarrow> int" where
  "compareResults companyDomain a b =
     (let aIsLinkedIn = isLinkedIn a;
          bIsLinkedIn = isLinkedIn b
      in if aIsLinkedIn \<and> \<not> bIsLinkedIn then - 1
         else if \<not> aIsLinkedIn \<and> bIsLinkedIn then 1
         else (let aIsCompanySite = isCompanySite companyDomain a;
                   bIsCompanySite = isCompanySite companyDomain b
               in if aIsCompanySite \<and> \<not> bIsCompanySite then - 1
                  else if \<not> aIsCompanySite \<and> bIsCompanySite then 1
                  else 0))"

text \<open>
  \<^verbatim>\<open>Array.prototype.sort\<close> is a stable sort (ECMAScript 2019). It is modelled as the
  insertion sort that puts an element before the first later element it does not
  compare greater than, so that elements comparing equal keep their order.
\<close>

fun insertSorted :: "('a \<Rightarrow> 'a \<Rightarrow> int) \<Rightarrow> 'a \<Rightarrow> 'a list \<Rightarrow> 'a list" where
  "insertSorted cmp x [] = [x]"
| "insertSorted cmp x (y # ys) =
     (if cmp x y \<le> 0 then x # y # ys else y # insertSorted cmp x ys)"

definition stableSort :: "('a \<Rightarrow> 'a \<Rightarrow> int) \<Rightarrow> 'a list \<Rightarrow> 'a list" where
  "stableSort cmp xs = foldr (insertSorted cmp) xs []"

definition rankedResults ::
  "string option \<Rightarrow> 'a SearchResult_scheme list \<Rightarrow> 'a SearchResult_scheme list" where
  "rankedResults companyDomain allSearchResults =
     stableSort (compareResults companyDomain) allSearchResults"

text \<open>
  A JavaScript \<^verbatim>\<open>Map\<close> is a list of entries in insertion order. \<^verbatim>\<open>set\<close> on a key
  already present replaces the value where the key stands; on a new key it appends.
  \<^verbatim>\<open>new Map(entries)\<close> sets the entries from left to right.
\<close>

fun mapSet :: "'k \<Rightarrow> 'v \<Rightarrow> ('k \<times> 'v) list \<Rightarrow> ('k \<times> 'v) list" where
  "mapSet k v [] = [(k, v)]"
| "mapSet k v ((k', v') # entries) =
     (if k' = k then (k, v) # entries else (k', v') # mapSet k v entries)"

definition newMap :: "('k \<times> 'v) list \<Rightarrow> ('k \<times> 'v) list" where
  "newMap entries = foldl (\<lambda>m (k, v). mapSet k v m) [] entries"

definition uniqueResults :: "'a SearchResult_scheme list \<Rightarrow> 'a SearchResult_scheme list" where
  "uniqueResults ranked = map snd (newMap (map (\<lambda>r. (url r, r)) ranked))"

definition prioritizedResults ::
  "'a SearchResult_scheme list \<Rightarrow> 'a SearchResult_scheme list" where
  "prioritizedResults unique =
     (let linkedInResults = filter (\<lambda>r. str_includes (url r) ''linkedin.com'') unique;
          otherResults = filter (\<lambda>r. \<not> str_includes (url r) ''linkedin.com'') unique
      in take 10 (linkedInResults @ otherResults))"

text \<open>The three steps of \<^verbatim>\<open>execute\<close> between collecting and serialising, in one.\<close>

definition rank ::
  "string option \<Rightarrow> 'a SearchResult_scheme list \<Rightarrow> 'a SearchResult_scheme list" where
  "rank companyDomain allSearchResults =
     prioritizedResults (uniqueResults (rankedResults companyDomain allSearchResults))"

definition combinedContent :: "'a SearchResult_scheme list \<Rightarrow> string" where
  "combinedContent prioritized =
     join ([CHR 0x0A, CHR 0x0A] @ ''---'' @ [CHR 0x0A, CHR 0x0A])
       (filter (\<lambda>block. block \<noteq> [])
          (map (\<lambda>r. ''URL: '' @ url r @ [CHR 0x0A] @
                     ''Title: '' @ (if truthy (title r) then render (title r) else ''No title'') @
                     [CHR 0x0A] @ ''Content:'' @ [CHR 0x0A] @
                     render (js_or (js_or (markdown r) (content r)) (Some [])))
             prioritized))"

text \<open>
  The key the comparator sorts by: \<^verbatim>\<open>compareResults\<close> puts a result before another
  exactly when its key is smaller, professional-network profiles before the rest and,
  among each, the results on the company's domain first.
\<close>

definition sortKey :: "string option \<Rightarrow> 'a SearchResult_scheme \<Rightarrow> nat" where
  "sortKey cDomain r =
     (if isLinkedIn r then 0 else 2) + (if isCompanySite cDomain r then 0 else 1)"

definition urlKey :: "string option \<Rightarrow> string \<Rightarrow> nat" where
  "urlKey cDomain u = sortKey cDomain \<lparr>url = u, title = None, markdown = None, content = None\<rparr>"

text \<open>The elements of a list in the order of their first occurrences.\<close>

fun firstOccurrences :: "'a list \<Rightarrow> 'a list" where
  "firstOccurrences [] = []"
| "firstOccurrences (x # xs) = x # firstOccurrences (filter (\<lambda>y. y \<noteq> x) xs)"

text \<open>The last record of a list that carries a given URL.\<close>

definition lastWithUrl :: "'a SearchResult_scheme list \<Rightarrow> string \<Rightarrow> 'a SearchResult_scheme" where
  "lastWithUrl rs u = last (filter (\<lambda>r. url r = u) rs)"

text \<open>
  The order the ranking produces: the network-hosted records first, and each of the two
  groups sorted by the comparator's key.
\<close>

definition inRankedOrder :: "string option \<Rightarrow> 'a SearchResult_scheme list \<Rightarrow> bool" where
  "inRankedOrder cDomain out =
     (out = filter (\<lambda>r. str_includes (url r) ''linkedin.com'') out @
            filter (\<lambda>r. \<not> str_includes (url r) ''linkedin.com'') out \<and>
      sorted (map (sortKey cDomain) (filter (\<lambda>r. str_includes (url r) ''linkedin.com'') out)) \<and>
      sorted (map (sortKey cDomain)
                (filter (\<lambda>r. \<not> str_includes (url r) ''linkedin.com'') out)))"

section \<open>Collaborators, effects and errors\<close>

text \<open>
  The three collaborators are asynchronous functions that may reject; the agent awaits
  each call, so a rejection is an exception at the call site. A thrown value is an
  \<open>error\<close>, and a call returns \<open>Inl\<close> of it or \<open>Inr\<close> of its result. A collaborator
  may answer differently each time: it reads and updates a world \<open>'w\<close> that the model
  threads through the calls. Beside the world the state carries the log of the calls
  issued so far.
\<close>

datatype error = Error string

text \<open>
  The second field of \<^verbatim>\<open>ScrapeResult\<close> is \<^verbatim>\<open>markdown\<close> in the source; it is renamed
  here because \<^verbatim>\<open>SearchResult\<close> has a field of that name.
\<close>

record ScrapeResult =
  success :: bool
  scrapedMarkdown :: "string option"
  html :: "string option"

text \<open>
  Modelled from the spec: the type \<^verbatim>\<open>EnrichmentResult\<close> of \<^verbatim>\<open>../core/types\<close>, which
  is not among the sources. The spec gives it as \<^verbatim>\<open>{value, ...}\<close>, kept when the value
  is defined and non-empty; the source's field \<^verbatim>\<open>value\<close> is \<open>resultValue\<close> here, and
  the other fields are the record's extension.
\<close>

record EnrichmentResult =
  resultValue :: "string option"

text \<open>
  The caller's context. \<^verbatim>\<open>discoveredData\<close> is a \<^verbatim>\<open>Record<string, unknown>\<close> of which
  the agent reads the key \<^verbatim>\<open>companyName\<close> and which it then treats as a string
  (\<^verbatim>\<open>companyName as string | undefined\<close>); the model takes its values to be strings.
\<close>

record EmailContext =
  companyDomain :: "string option"
  companyNameGuess :: "string option"

record GeneralAgentContext =
  companyName :: "string option"
  discoveredData :: "(string \<rightharpoonup> string) option"
  emailContext :: "EmailContext option"

text \<open>
  The object handed to the extraction engine: the resolved identity, the anchor URL and
  the caller's context spread on top. Its \<^verbatim>\<open>instruction\<close> is a fixed text into which
  the same three values are printed; the engine is a parameter of the model, so the
  text is left out.
\<close>

record EnrichmentContext =
  resolvedCompanyName :: "string option"
  resolvedCompanyDomain :: "string option"
  targetDomain :: "string option"
  companyLinkedInUrl :: "string option"
  callerContext :: GeneralAgentContext

text \<open>
  \<^verbatim>\<open>search\<close> takes the query and the \<^verbatim>\<open>limit\<close> option (the \<^verbatim>\<open>scrapeOptions\<close> are the
  same at both call sites); the extraction engine returns an object, given as its
  entries in order.
\<close>

record 'w GeneralAgentTools =
  search :: "string \<Rightarrow> nat \<Rightarrow> 'w \<Rightarrow> (error + SearchResult list) \<times> 'w"
  scrape :: "string \<Rightarrow> 'w \<Rightarrow> (error + ScrapeResult) \<times> 'w"
  extractStructuredData ::
    "string \<Rightarrow> EnrichmentField list \<Rightarrow> EnrichmentContext \<Rightarrow> 'w \<Rightarrow>
     (error + (string \<times> EnrichmentResult) list) \<times> 'w"

datatype call =
  Search string nat
| Scrape string
| Extract string "EnrichmentField list" EnrichmentContext

type_synonym 'w state = "'w \<times> call list"

definition callSearch ::
  "'w GeneralAgentTools \<Rightarrow> string \<Rightarrow> nat \<Rightarrow> 'w state \<Rightarrow> (error + SearchResult list) \<times> 'w state" where
  "callSearch tools query limit s =
     (case search tools query limit (fst s) of
        (outcome, w) \<Rightarrow> (outcome, (w, snd s @ [Search query limit])))"

definition callScrape ::
  "'w GeneralAgentTools \<Rightarrow> string \<Rightarrow> 'w state \<Rightarrow> (error + ScrapeResult) \<times> 'w state" where
  "callScrape tools pageUrl s =
     (case scrape tools pageUrl (fst s) of
        (outcome, w) \<Rightarrow> (outcome, (w, snd s @ [Scrape pageUrl])))"

definition callExtract ::
  "'w GeneralAgentTools \<Rightarrow> string \<Rightarrow> EnrichmentField list \<Rightarrow> EnrichmentContext \<Rightarrow> 'w state \<Rightarrow>
   (error + (string \<times> EnrichmentResult) list) \<times> 'w state" where
  "callExtract tools text flds enrichmentContext s =
     (case extractStructuredData tools text flds enrichmentContext (fst s) of
        (outcome, w) \<Rightarrow> (outcome, (w, snd s @ [Extract text flds enrichmentContext])))"

section \<open>Anchor resolver\<close>

text \<open>The whole body is in a \<^verbatim>\<open>try\<close> whose handler returns \<^verbatim>\<open>null\<close>.\<close>

definition findCompanyLinkedInPage ::
  "'w GeneralAgentTools \<Rightarrow> string \<Rightarrow> string option \<Rightarrow> 'w state \<Rightarrow> string option \<times> 'w state" where
  "findCompanyLinkedInPage tools cName cDomain s =
     (case callSearch tools (''site:linkedin.com/company '' @ quoted cName) 5 s of
        (Inl err, s') \<Rightarrow> (None, s')
      | (Inr searchResults, s') \<Rightarrow>
          (if length searchResults = 0 then None
           else (case filter (\<lambda>result.
                          str_includes (url result) ''linkedin.com/company'' \<and>
                          str_includes (toLowerCase (url result))
                            (replaceSpaces False (toLowerCase cName)))
                        searchResults of
                   companyPage # others \<Rightarrow> Some (url companyPage)
                 | [] \<Rightarrow>
                     (case find (\<lambda>result. str_includes (url result) ''linkedin.com/company'')
                             searchResults of
                        Some anyCompanyPage \<Rightarrow> Some (url anyCompanyPage)
                      | None \<Rightarrow> None)),
           s'))"

section \<open>Evidence collector\<close>

text \<open>
  The loop over the queries. The handler of the inner \<^verbatim>\<open>try\<close> logs and goes on to the
  next query, which is the \<open>Inl\<close> branch.
\<close>

fun searchAll ::
  "'w GeneralAgentTools \<Rightarrow> string list \<Rightarrow> SearchResult list \<Rightarrow> 'w state \<Rightarrow>
   SearchResult list \<times> 'w state" where
  "searchAll tools [] allSearchResults s = (allSearchResults, s)"
| "searchAll tools (query # queries) allSearchResults s =
     (case callSearch tools query 3 s of
        (Inl err, s') \<Rightarrow> searchAll tools queries allSearchResults s'
      | (Inr searchResults, s') \<Rightarrow>
          searchAll tools queries
            (if length searchResults > 0 then allSearchResults @ searchResults
             else allSearchResults) s')"

text \<open>
  The loop over the pages of the company's site: \<^verbatim>\<open>break\<close> after the first page that
  is scraped with success and a non-empty \<^verbatim>\<open>markdown\<close>; a failed call is caught and
  the loop goes on.
\<close>

fun scrapePages ::
  "'w GeneralAgentTools \<Rightarrow> string list \<Rightarrow> SearchResult list \<Rightarrow> 'w state \<Rightarrow>
   SearchResult list \<times> 'w state" where
  "scrapePages tools [] allSearchResults s = (allSearchResults, s)"
| "scrapePages tools (pageUrl # pageUrls) allSearchResults s =
     (case callScrape tools pageUrl s of
        (Inl err, s') \<Rightarrow> scrapePages tools pageUrls allSearchResults s'
      | (Inr scraped, s') \<Rightarrow>
          if success scraped \<and> truthy (scrapedMarkdown scraped)
          then (allSearchResults @
                  [\<lparr>url = pageUrl, title = Some ''Company Leadership Page'',
                    markdown = scrapedMarkdown scraped, content = scrapedMarkdown scraped\<rparr>],
                s')
          else scrapePages tools pageUrls allSearchResults s')"

definition leadershipPages :: "string \<Rightarrow> string list" where
  "leadershipPages domain =
     [''https://'' @ domain @ ''/about'',
      ''https://'' @ domain @ ''/team'',
      ''https://'' @ domain @ ''/leadership'']"

definition collectEvidence ::
  "'w GeneralAgentTools \<Rightarrow> string list \<Rightarrow> string option \<Rightarrow> EnrichmentField list \<Rightarrow> 'w state \<Rightarrow>
   SearchResult list \<times> 'w state" where
  "collectEvidence tools searchQueries cDomain flds s =
     (case searchAll tools searchQueries [] s of
        (allSearchResults, s') \<Rightarrow>
          if truthy cDomain \<and> hasExecutiveFields flds
          then scrapePages tools (leadershipPages (render cDomain)) allSearchResults s'
          else (allSearchResults, s'))"

section \<open>Extraction dispatcher and orchestration\<close>

type_synonym results = "string \<rightharpoonup> EnrichmentResult"

text \<open>The loop over \<^verbatim>\<open>Object.entries(enrichmentResults)\<close>.\<close>

fun processResults :: "(string \<times> EnrichmentResult) list \<Rightarrow> results \<Rightarrow> results" where
  "processResults [] res = res"
| "processResults ((fieldName, enrichment) # entries) res =
     processResults entries
       (if truthy (resultValue enrichment) then res(fieldName \<mapsto> enrichment) else res)"

text \<open>
  How the \<^verbatim>\<open>try\<close> block of \<^verbatim>\<open>execute\<close> ends: it runs to its end, it returns a value
  from inside, or it throws.
\<close>

datatype 'a completion = Normal | Return 'a | Throw error

text \<open>
  The \<^verbatim>\<open>try\<close> block, with the value of the local \<^verbatim>\<open>results\<close> when the block ends.
\<close>

definition executeTry ::
  "url_parser \<Rightarrow> 'w GeneralAgentTools \<Rightarrow> GeneralAgentContext \<Rightarrow> EnrichmentField list \<Rightarrow>
   string option \<Rightarrow> string option \<Rightarrow> 'w state \<Rightarrow> (results completion \<times> results) \<times> 'w state" where
  "executeTry urlPathname tools context flds cName cDomain s =
     (case (if truthy cName then findCompanyLinkedInPage tools (render cName) cDomain s
            else (None, s)) of
        (linkedInUrl, s1) \<Rightarrow>
          (case collectEvidence tools
                  (buildLinkedInFirstQueries urlPathname flds cName cDomain linkedInUrl)
                  cDomain flds s1 of
             (allSearchResults, s2) \<Rightarrow>
               (let unique = uniqueResults (rankedResults cDomain allSearchResults)
                in if length unique = 0 then ((Return Map.empty, Map.empty), s2)
                   else (case callExtract tools (combinedContent (prioritizedResults unique)) flds
                                 \<lparr>resolvedCompanyName = cName, resolvedCompanyDomain = cDomain,
                                   targetDomain = cDomain, companyLinkedInUrl = linkedInUrl,
                                   callerContext = context\<rparr> s2 of
                           (Inl err, s3) \<Rightarrow> ((Throw err, Map.empty), s3)
                         | (Inr enrichmentResults, s3) \<Rightarrow>
                             ((Normal, processResults enrichmentResults Map.empty), s3)))))"

text \<open>
  \<^verbatim>\<open>execute\<close>: the identity is resolved, the short circuit returns before anything is
  called, and the handler of the outer \<^verbatim>\<open>try\<close> logs the error and falls through to
  \<^verbatim>\<open>return results\<close>. The result is \<open>Inl\<close> if \<^verbatim>\<open>execute\<close> throws to its caller.
\<close>

definition resolveCompanyName :: "GeneralAgentContext \<Rightarrow> string option" where
  "resolveCompanyName context =
     js_or (js_or (companyName context)
              (case discoveredData context of
                 None \<Rightarrow> None
               | Some d \<Rightarrow> d ''companyName''))
       (case emailContext context of
          None \<Rightarrow> None
        | Some e \<Rightarrow> companyNameGuess e)"

definition resolveCompanyDomain :: "GeneralAgentContext \<Rightarrow> string option" where
  "resolveCompanyDomain context =
     (case emailContext context of
        None \<Rightarrow> None
      | Some e \<Rightarrow> companyDomain e)"

definition execute ::
  "url_parser \<Rightarrow> 'w GeneralAgentTools \<Rightarrow> GeneralAgentContext \<Rightarrow> EnrichmentField list \<Rightarrow>
   'w state \<Rightarrow> (error + results) \<times> 'w state" where
  "execute urlPathname tools context flds s =
     (let cName = resolveCompanyName context;
          cDomain = resolveCompanyDomain context
      in if \<not> truthy cName \<and> \<not> truthy cDomain then (Inr Map.empty, s)
         else (case executeTry urlPathname tools context flds cName cDomain s of
                 ((Normal, res), s') \<Rightarrow> (Inr res, s')
               | ((Return returned, res), s') \<Rightarrow> (Inr returned, s')
               | ((Throw err, res), s') \<Rightarrow> (Inr res, s')))"

text \<open>
  What the collector should keep of the searches, stated apart from its loop: the
  outcomes of the search calls for the queries, issued in order, each from the world the
  one before left; and the records an outcome holds, none for a failed call.
\<close>

fun searchTrace ::
  "'w GeneralAgentTools \<Rightarrow> string list \<Rightarrow> 'w \<Rightarrow> (error + SearchResult list) list" where
  "searchTrace tools [] w = []"
| "searchTrace tools (query # queries) w =
     (case search tools query 3 w of
        (outcome, w') \<Rightarrow> outcome # searchTrace tools queries w')"

fun searchRecords :: "error + SearchResult list \<Rightarrow> SearchResult list" where
  "searchRecords (Inl err) = []"
| "searchRecords (Inr records) = records"

text \<open>
  A page counts when the call returned, with \<^verbatim>\<open>success\<close> and a non-empty
  \<^verbatim>\<open>markdown\<close>; \<open>leadershipRecord\<close> is the record the loop then appends.
\<close>

definition pageOk :: "error + ScrapeResult \<Rightarrow> bool" where
  "pageOk outcome =
     (case outcome of
        Inl err \<Rightarrow> False
      | Inr scraped \<Rightarrow> success scraped \<and> truthy (scrapedMarkdown scraped))"

definition leadershipRecord :: "string \<Rightarrow> ScrapeResult \<Rightarrow> SearchResult" where
  "leadershipRecord pageUrl scraped =
     \<lparr>url = pageUrl, title = Some ''Company Leadership Page'',
      markdown = scrapedMarkdown scraped, content = scrapedMarkdown scraped\<rparr>"

text \<open>
  Two sets of collaborators to run the model on: one whose anchor search and whose
  search for \<open>q1\<close> fail, whose first two pages do not count and whose extraction engine
  fails; and one where every call fails. The world counts the calls.
\<close>

definition flakyTools :: "nat GeneralAgentTools" where
  "flakyTools =
     \<lparr>search = (\<lambda>query limit w.
                  (if limit = 5 \<or> query = ''q1'' then Inl (Error ''timeout'')
                   else Inr [\<lparr>url = ''https://b.org/news'', title = None,
                              markdown = Some ''text'', content = None\<rparr>],
                   Suc w)),
      scrape = (\<lambda>pageUrl w.
                  (if pageUrl = ''https://acme.com/about'' then Inl (Error ''404'')
                   else if pageUrl = ''https://acme.com/team''
                   then Inr \<lparr>success = False, scrapedMarkdown = None, html = None\<rparr>
                   else Inr \<lparr>success = True, scrapedMarkdown = Some ''Jane Doe, CEO'',
                              html = None\<rparr>,
                   Suc w)),
      extractStructuredData = (\<lambda>text flds enrichmentContext w.
                  (Inl (Error ''engine down''), Suc w))\<rparr>"

definition downTools :: "nat GeneralAgentTools" where
  "downTools =
     \<lparr>search = (\<lambda>query limit w. (Inl (Error ''down''), Suc w)),
      scrape = (\<lambda>pageUrl w. (Inl (Error ''down''), Suc w)),
      extractStructuredData = (\<lambda>text flds enrichmentContext w. (Inl (Error ''down''), Suc w))\<rparr>"

section \<open>Properties of the field classifier\<close>

text \<open>
  C7, as the specification states it: every rule of \<open>canonicalTitle\<close> looks for its
  pattern in the name and in the description. The code does not: the field named
  \<open>owner\<close> and described as \<open>Company founder\<close> carries the founder pattern in its
  description, and \<^verbatim>\<open>extractTitle\<close> returns the field name, since the founder rule
  reads the name only.
\<close>

theorem extractTitle_description_counterexample:
  "canonicalTitle_spec \<lparr>name = ''owner'', description = ''Company founder''\<rparr> = ''founder'' \<and>
   extractTitle \<lparr>name = ''owner'', description = ''Company founder''\<rparr> = ''owner''"
  by (simp add: canonicalTitle_spec_def extractTitle_def toLowerCase_def toLowerChar_def)

text \<open>
  C7, amended: \<^verbatim>\<open>extractTitle\<close> is the first match of the ordered rule table
  \<open>titleRules\<close> (CEO, CTO, CFO, COO, CMO, CPO, founder, president). A rule of the first
  six fires when its abbreviation occurs in the lower-cased name or its long form
  (\<open>chief executive\<close>, ...) occurs in the lower-cased description; the founder and the
  president rule fire on the lower-cased name only. With no match the result is the
  original field name.
\<close>

theorem extractTitle_first_match:
  "extractTitle field = firstMatch field"
  by (simp add: extractTitle_def firstMatch_def titleRules_def Let_def)

text \<open>
  C8, as the specification states it: \<open>canonicalTitle\<close> returns a non-empty string for
  any field, also for one whose name is empty. The field with an empty name and an empty
  description is sent to the empty string.
\<close>

theorem extractTitle_empty_counterexample:
  "extractTitle \<lparr>name = [], description = []\<rparr> = []"
  by (simp add: extractTitle_def toLowerCase_def)

text \<open>
  C8, amended: \<^verbatim>\<open>extractTitle\<close> is a total function of the field whose result is a
  canonical label or the original field name; the result is non-empty whenever the
  field's name is non-empty.
\<close>

theorem extractTitle_label_or_name:
  "(extractTitle field \<in> set canonicalLabels \<or> extractTitle field = name field) \<and>
   (name field \<noteq> [] \<longrightarrow> extractTitle field \<noteq> [])"
  by (simp add: extractTitle_def canonicalLabels_def titleRules_def Let_def)

theorem extractTitle_label_or_name_witness:
  "name \<lparr>name = ''vp sales'', description = ''Head of sales''\<rparr> \<noteq> [] \<and>
   extractTitle \<lparr>name = ''vp sales'', description = ''Head of sales''\<rparr> = ''vp sales'' \<and>
   extractTitle \<lparr>name = ''vp sales'', description = ''Head of sales''\<rparr> \<noteq> []"
  using extractTitle_label_or_name [of "\<lparr>name = ''vp sales'', description = ''Head of sales''\<rparr>"]
  by (simp add: extractTitle_def toLowerCase_def toLowerChar_def)

section \<open>Substrings\<close>

lemma startsWith_append: "startsWith s (p @ q) \<Longrightarrow> startsWith s p"
  by (induction s p rule: startsWith.induct) auto

lemma str_includes_append: "str_includes s (p @ q) \<Longrightarrow> str_includes s p"
proof (induction s)
  case Nil
  then show ?case by simp
next
  case (Cons c cs)
  then show ?case using startsWith_append [of "c # cs" p q] by auto
qed

lemma isLinkedIn_networkHosted: "isLinkedIn r \<Longrightarrow> str_includes (url r) ''linkedin.com''"
  unfolding isLinkedIn_def
  using str_includes_append [of "url r" "''linkedin.com''" "''/in''"]
        str_includes_append [of "url r" "''linkedin.com''" "''/company''"]
  by auto

section \<open>The sort is the stable sort by key\<close>

lemma compareResults_sortKey:
  "compareResults cDomain a b \<le> 0 \<longleftrightarrow> sortKey cDomain a \<le> sortKey cDomain b"
  by (simp add: compareResults_def sortKey_def Let_def)

lemma insertSorted_insort_key:
  "insertSorted (compareResults cDomain) x ys = insort_key (sortKey cDomain) x ys"
  by (induction ys) (simp_all add: compareResults_sortKey)

lemma rankedResults_sort_key:
  "rankedResults cDomain rs = sort_key (sortKey cDomain) rs"
  by (induction rs) (simp_all add: rankedResults_def stableSort_def insertSorted_insort_key)

section \<open>First occurrences\<close>

lemma set_firstOccurrences [simp]: "set (firstOccurrences xs) = set xs"
  by (induction xs rule: firstOccurrences.induct) auto

lemma distinct_firstOccurrences [simp]: "distinct (firstOccurrences xs)"
  by (induction xs rule: firstOccurrences.induct) auto

lemma firstOccurrences_snoc:
  "firstOccurrences (xs @ [k]) =
     (if k \<in> set xs then firstOccurrences xs else firstOccurrences xs @ [k])"
  by (induction xs rule: firstOccurrences.induct) auto

lemma firstOccurrences_distinct: "distinct xs \<Longrightarrow> firstOccurrences xs = xs"
proof (induction xs)
  case Nil
  then show ?case by simp
next
  case (Cons x xs)
  then have "filter (\<lambda>y. y \<noteq> x) xs = xs" by (auto intro: filter_True)
  with Cons show ?case by simp
qed

lemma sorted_map_firstOccurrences:
  "sorted (map g xs) \<Longrightarrow> sorted (map g (firstOccurrences xs))"
proof (induction xs rule: firstOccurrences.induct)
  case 1
  then show ?case by simp
next
  case (2 x xs)
  have "sorted (map g (filter (\<lambda>y. y \<noteq> x) xs))"
    using 2(2) by (simp add: sorted_filter)
  then show ?case using 2 by auto
qed

section \<open>Deduplication through the map\<close>

lemma mapSet_tabulate:
  "distinct ks \<Longrightarrow>
   mapSet k v (map (\<lambda>u. (u, g u)) ks) =
     (if k \<in> set ks then map (\<lambda>u. (u, (g(k := v)) u)) ks
      else map (\<lambda>u. (u, g u)) ks @ [(k, v)])"
  by (induction ks) auto

lemma newMap_snoc: "newMap (entries @ [(k, v)]) = mapSet k v (newMap entries)"
  by (simp add: newMap_def)

lemma lastWithUrl_snoc:
  "lastWithUrl (rs @ [r]) u = (if u = url r then r else lastWithUrl rs u)"
  by (simp add: lastWithUrl_def)

lemma newMap_entries:
  "newMap (map (\<lambda>r. (url r, r)) rs) =
     map (\<lambda>u. (u, lastWithUrl rs u)) (firstOccurrences (map url rs))"
proof (induction rs rule: rev_induct)
  case Nil
  then show ?case by (simp add: newMap_def)
next
  case (snoc r rs)
  show ?case
  proof (cases "url r \<in> set (map url rs)")
    case True
    then show ?thesis
      using snoc
      by (simp add: newMap_snoc mapSet_tabulate firstOccurrences_snoc lastWithUrl_snoc fun_upd_def)
  next
    case False
    have "u \<noteq> url r" if "u \<in> set (firstOccurrences (map url rs))" for u
    proof -
      from that have "u \<in> set (map url rs)" by simp
      with False show ?thesis by blast
    qed
    then have "map (\<lambda>u. (u, lastWithUrl (rs @ [r]) u)) (firstOccurrences (map url rs)) =
               map (\<lambda>u. (u, lastWithUrl rs u)) (firstOccurrences (map url rs))"
      by (intro map_cong) (simp_all add: lastWithUrl_snoc)
    with False show ?thesis
      using snoc
      by (simp add: newMap_snoc mapSet_tabulate firstOccurrences_snoc lastWithUrl_snoc)
  qed
qed

lemma uniqueResults_eq:
  "uniqueResults rs = map (lastWithUrl rs) (firstOccurrences (map url rs))"
  by (simp add: uniqueResults_def newMap_entries comp_def)

lemma url_lastWithUrl: "u \<in> url ` set rs \<Longrightarrow> url (lastWithUrl rs u) = u"
proof -
  assume "u \<in> url ` set rs"
  then have "filter (\<lambda>r. url r = u) rs \<noteq> []"
    by (auto simp: filter_empty_conv)
  then have "last (filter (\<lambda>r. url r = u) rs) \<in> set (filter (\<lambda>r. url r = u) rs)"
    by (rule last_in_set)
  then show ?thesis by (simp add: lastWithUrl_def)
qed

lemma lastWithUrl_in_set: "u \<in> url ` set rs \<Longrightarrow> lastWithUrl rs u \<in> set rs"
proof -
  assume "u \<in> url ` set rs"
  then have "filter (\<lambda>r. url r = u) rs \<noteq> []"
    by (auto simp: filter_empty_conv)
  then have "last (filter (\<lambda>r. url r = u) rs) \<in> set (filter (\<lambda>r. url r = u) rs)"
    by (rule last_in_set)
  then show ?thesis by (simp add: lastWithUrl_def)
qed

lemma map_url_uniqueResults:
  "map url (uniqueResults rs) = firstOccurrences (map url rs)"
proof -
  have "map url (uniqueResults rs) = map (\<lambda>u. url (lastWithUrl rs u)) (firstOccurrences (map url rs))"
    by (simp add: uniqueResults_eq comp_def)
  also have "\<dots> = map (\<lambda>u. u) (firstOccurrences (map url rs))"
    by (rule map_cong) (auto simp: url_lastWithUrl)
  finally show ?thesis by simp
qed

lemma uniqueResults_distinct: "distinct (map url rs) \<Longrightarrow> uniqueResults rs = rs"
proof -
  assume d: "distinct (map url rs)"
  have "lastWithUrl rs (url r) = r" if "r \<in> set rs" for r
  proof -
    have "filter (\<lambda>x. url x = url r) rs = [r]"
      using d that
    proof (induction rs)
      case Nil
      then show ?case by simp
    next
      case (Cons a rs)
      then show ?case by (auto simp: filter_empty_conv image_iff)
    qed
    then show ?thesis by (simp add: lastWithUrl_def)
  qed
  then have "map (lastWithUrl rs) (map url rs) = rs"
    by (simp add: map_idI)
  with d show ?thesis
    by (simp add: uniqueResults_eq firstOccurrences_distinct)
qed

section \<open>Ranking: sort, deduplicate, partition, truncate\<close>

lemma nth_take_append_left:
  assumes "\<forall>x\<in>set ns. \<not> P x" "j < length (take n (ps @ ns))" "P (take n (ps @ ns) ! j)"
  shows "j < length ps"
proof (rule ccontr)
  assume "\<not> j < length ps"
  moreover have "j < length (ps @ ns)" using assms(2) by simp
  ultimately have "(ps @ ns) ! j \<in> set ns"
    by (simp add: nth_append)
  moreover have "take n (ps @ ns) ! j = (ps @ ns) ! j"
    using assms(2) by (simp del: take_append)
  ultimately show False using assms(1,3) by auto
qed

lemma partition_take_precedes:
  assumes "\<forall>x\<in>set ps. P x" "\<forall>x\<in>set ns. \<not> P x"
    and "i < j" "j < length (take n (ps @ ns))" "P (take n (ps @ ns) ! j)"
  shows "P (take n (ps @ ns) ! i)"
proof -
  have "j < length ps" using assms(2,4,5) by (rule nth_take_append_left)
  with assms(3) have "i < length ps" by simp
  moreover have "take n (ps @ ns) ! i = (ps @ ns) ! i"
    using assms(3,4) by (simp del: take_append)
  ultimately show ?thesis using assms(1) by (simp add: nth_append del: take_append)
qed

lemma sorted_take_precedes:
  assumes "sorted (map key ps)" "\<forall>x\<in>set ns. \<not> Q x" "\<And>x. Q x \<longleftrightarrow> key x < (b::nat)"
    and "i < j" "j < length (take n (ps @ ns))" "Q (take n (ps @ ns) ! j)"
  shows "Q (take n (ps @ ns) ! i)"
proof -
  have j: "j < length ps" using assms(2,5,6) by (rule nth_take_append_left)
  with assms(4) have i: "i < length ps" by simp
  have "take n (ps @ ns) ! j = ps ! j" "take n (ps @ ns) ! i = ps ! i"
    using assms(4,5) i j by (simp_all add: nth_append del: take_append)
  moreover have "map key ps ! i \<le> map key ps ! j"
    using assms(1,4) j by (intro sorted_nth_mono) simp_all
  ultimately show ?thesis using assms(3,6) i j by simp
qed

lemma isLinkedIn_sortKey: "isLinkedIn r \<longleftrightarrow> sortKey cDomain r < 2"
  by (simp add: sortKey_def)

lemma sortKey_url: "url a = url b \<Longrightarrow> sortKey cDomain a = sortKey cDomain b"
  by (simp add: sortKey_def isLinkedIn_def isCompanySite_def split: option.splits)


lemma sortKey_urlKey: "sortKey cDomain r = urlKey cDomain (url r)"
  unfolding urlKey_def by (rule sortKey_url) simp

lemma sorted_uniqueResults:
  assumes "sorted (map (sortKey cDomain) rs)"
  shows "sorted (map (sortKey cDomain) (uniqueResults rs))"
proof -
  have key: "map (sortKey cDomain) xs = map (urlKey cDomain) (map url xs)"
    for xs :: "'a SearchResult_scheme list"
    unfolding map_map by (rule map_cong) (simp_all add: sortKey_urlKey)
  have "sorted (map (urlKey cDomain) (map url rs))"
    using assms unfolding key .
  then have "sorted (map (urlKey cDomain) (firstOccurrences (map url rs)))"
    by (rule sorted_map_firstOccurrences)
  then show ?thesis
    unfolding key map_url_uniqueResults .
qed

lemma set_uniqueResults: "set (uniqueResults rs) \<subseteq> set rs"
  by (auto simp: uniqueResults_eq lastWithUrl_in_set)

lemma rank_eq:
  "rank cDomain rs =
     take 10 (filter (\<lambda>r. str_includes (url r) ''linkedin.com'')
                (uniqueResults (sort_key (sortKey cDomain) rs)) @
              filter (\<lambda>r. \<not> str_includes (url r) ''linkedin.com'')
                (uniqueResults (sort_key (sortKey cDomain) rs)))"
  by (simp add: rank_def prioritizedResults_def rankedResults_sort_key Let_def)

lemma distinct_map_partition:
  "distinct (map f xs) \<Longrightarrow> distinct (map f (filter P xs @ filter (\<lambda>x. \<not> P x) xs))"
  by (auto simp: distinct_map_filter distinct_map inj_on_def)

lemma distinct_url_rank: "distinct (map url (rank cDomain rs))"
proof -
  have "distinct (map url (uniqueResults (sort_key (sortKey cDomain) rs)))"
    by (simp add: map_url_uniqueResults)
  then have "distinct (map url (take 10 (filter (\<lambda>r. str_includes (url r) ''linkedin.com'')
                (uniqueResults (sort_key (sortKey cDomain) rs)) @
              filter (\<lambda>r. \<not> str_includes (url r) ''linkedin.com'')
                (uniqueResults (sort_key (sortKey cDomain) rs)))))"
    unfolding take_map [symmetric] by (intro distinct_take distinct_map_partition)
  then show ?thesis by (simp only: rank_eq)
qed

lemma set_rank: "set (rank cDomain rs) \<subseteq> set rs"
proof -
  have "set (rank cDomain rs) \<subseteq> set (uniqueResults (sort_key (sortKey cDomain) rs))"
    unfolding rank_eq by (auto dest: in_set_takeD)
  also have "\<dots> \<subseteq> set (sort_key (sortKey cDomain) rs)" by (rule set_uniqueResults)
  finally show ?thesis by simp
qed

lemma rank_networkHosted_first:
  assumes "i < j" "j < length (rank cDomain rs)"
    "str_includes (url (rank cDomain rs ! j)) ''linkedin.com''"
  shows "str_includes (url (rank cDomain rs ! i)) ''linkedin.com''"
proof -
  let ?u = "uniqueResults (sort_key (sortKey cDomain) rs)"
  let ?B = "\<lambda>r::'a SearchResult_scheme. str_includes (url r) ''linkedin.com''"
  let ?out = "take 10 (filter ?B ?u @ filter (\<lambda>r. \<not> ?B r) ?u)"
  have out: "rank cDomain rs = ?out" by (rule rank_eq)
  have a: "\<forall>x\<in>set (filter ?B ?u). ?B x" by simp
  have b: "\<forall>x\<in>set (filter (\<lambda>r. \<not> ?B r) ?u). \<not> ?B x" by simp
  have j: "j < length ?out" using assms(2) unfolding out .
  have h: "?B (?out ! j)" using assms(3) unfolding out .
  have "?B (?out ! i)"
    by (rule partition_take_precedes [where P = ?B, OF a b assms(1) j h])
  then show ?thesis unfolding out .
qed

lemma rank_isLinkedIn_first:
  assumes "i < j" "j < length (rank cDomain rs)" "isLinkedIn (rank cDomain rs ! j)"
  shows "isLinkedIn (rank cDomain rs ! i)"
proof -
  let ?u = "uniqueResults (sort_key (sortKey cDomain) rs)"
  let ?B = "\<lambda>r::'a SearchResult_scheme. str_includes (url r) ''linkedin.com''"
  let ?out = "take 10 (filter ?B ?u @ filter (\<lambda>r. \<not> ?B r) ?u)"
  have out: "rank cDomain rs = ?out" by (rule rank_eq)
  have "sorted (map (sortKey cDomain) ?u)"
    by (intro sorted_uniqueResults) simp
  then have a: "sorted (map (sortKey cDomain) (filter ?B ?u))"
    by (rule sorted_filter)
  have b: "\<forall>x\<in>set (filter (\<lambda>r. \<not> ?B r) ?u). \<not> isLinkedIn x"
    using isLinkedIn_networkHosted by auto
  have c: "isLinkedIn x \<longleftrightarrow> sortKey cDomain x < 2" for x :: "'a SearchResult_scheme"
    by (rule isLinkedIn_sortKey)
  have j: "j < length ?out" using assms(2) unfolding out .
  have h: "isLinkedIn (?out ! j)" using assms(3) unfolding out .
  have "isLinkedIn (?out ! i)"
    by (rule sorted_take_precedes [where Q = isLinkedIn and key = "sortKey cDomain",
          OF a b c assms(1) j h])
  then show ?thesis unfolding out .
qed

lemma rank_all_urls:
  assumes "card (set (map url rs)) \<le> 10"
  shows "set (map url (rank cDomain rs)) = set (map url rs)"
proof -
  let ?u = "uniqueResults (sort_key (sortKey cDomain) rs)"
  have urls: "map url ?u = firstOccurrences (map url (sort_key (sortKey cDomain) rs))"
    by (rule map_url_uniqueResults)
  then have "set (map url ?u) = set (map url rs)" by simp
  moreover have "distinct (map url ?u)" using urls by simp
  ultimately have "length (map url ?u) = card (set (map url rs))"
    using distinct_card by metis
  then have "length ?u \<le> 10" using assms by simp
  then have "rank cDomain rs = filter (\<lambda>r. str_includes (url r) ''linkedin.com'') ?u @
              filter (\<lambda>r. \<not> str_includes (url r) ''linkedin.com'') ?u"
    unfolding rank_eq
    by (intro take_all) (simp add: sum_length_filter_compl)
  then have "set (rank cDomain rs) = set ?u" by auto
  then have "set (map url (rank cDomain rs)) = set (map url ?u)" by simp
  with \<open>set (map url ?u) = set (map url rs)\<close> show ?thesis by simp
qed

lemma filter_take_partition:
  assumes "\<forall>x\<in>set ps. P x" "\<forall>x\<in>set ns. \<not> P x"
  shows "filter P (take n (ps @ ns)) = take n ps"
    and "filter (\<lambda>x. \<not> P x) (take n (ps @ ns)) = take (n - length ps) ns"
proof -
  have "\<forall>x\<in>set (take n ps). P x" "\<forall>x\<in>set (take (n - length ps) ns). \<not> P x"
    using assms by (auto dest: in_set_takeD)
  then show "filter P (take n (ps @ ns)) = take n ps"
    and "filter (\<lambda>x. \<not> P x) (take n (ps @ ns)) = take (n - length ps) ns"
    by (simp_all add: filter_empty_conv filter_id_conv)
qed

lemma sorted_map_take: "sorted (map f xs) \<Longrightarrow> sorted (map f (take n xs))"
  unfolding take_map [symmetric] by (rule sorted_wrt_take)

lemma rank_fixed_point:
  assumes d: "distinct (map url out)" and l: "length out \<le> 10"
    and p: "out = filter (\<lambda>r. str_includes (url r) ''linkedin.com'') out @
                  filter (\<lambda>r. \<not> str_includes (url r) ''linkedin.com'') out"
    and s1: "sorted (map (sortKey cDomain) (filter (\<lambda>r. str_includes (url r) ''linkedin.com'') out))"
    and s2: "sorted (map (sortKey cDomain) (filter (\<lambda>r. \<not> str_includes (url r) ''linkedin.com'') out))"
  shows "rank cDomain out = out"
proof -
  have "distinct (map url (sort_key (sortKey cDomain) out))"
    using d by (simp add: distinct_map)
  then have u: "uniqueResults (sort_key (sortKey cDomain) out) = sort_key (sortKey cDomain) out"
    by (rule uniqueResults_distinct)
  have "rank cDomain out = take 10 (filter (\<lambda>r. str_includes (url r) ''linkedin.com'') out @
                  filter (\<lambda>r. \<not> str_includes (url r) ''linkedin.com'') out)"
    unfolding rank_eq u filter_sort
    using s1 s2 by (simp add: sort_key_id_if_sorted)
  also have "\<dots> = take 10 out" by (simp only: p [symmetric])
  also have "\<dots> = out" using l by simp
  finally show ?thesis .
qed

lemma rank_inRankedOrder: "inRankedOrder cDomain (rank cDomain rs)"
proof -
  let ?u = "uniqueResults (sort_key (sortKey cDomain) rs)"
  let ?B = "\<lambda>r::'a SearchResult_scheme. str_includes (url r) ''linkedin.com''"
  have r: "rank cDomain rs = take 10 (filter ?B ?u @ filter (\<lambda>r. \<not> ?B r) ?u)"
    by (rule rank_eq)
  have su: "sorted (map (sortKey cDomain) ?u)"
    by (intro sorted_uniqueResults) simp
  have fB: "filter ?B (rank cDomain rs) = take 10 (filter ?B ?u)"
    unfolding r by (intro filter_take_partition(1)) simp_all
  have fN: "filter (\<lambda>r. \<not> ?B r) (rank cDomain rs) =
            take (10 - length (filter ?B ?u)) (filter (\<lambda>r. \<not> ?B r) ?u)"
    unfolding r by (intro filter_take_partition(2)) simp_all
  have "rank cDomain rs = filter ?B (rank cDomain rs) @ filter (\<lambda>r. \<not> ?B r) (rank cDomain rs)"
    unfolding fB fN by (simp add: r)
  moreover have "sorted (map (sortKey cDomain) (filter ?B (rank cDomain rs)))"
    unfolding fB using su by (intro sorted_map_take sorted_filter)
  moreover have "sorted (map (sortKey cDomain) (filter (\<lambda>r. \<not> ?B r) (rank cDomain rs)))"
    unfolding fN using su by (intro sorted_map_take sorted_filter)
  ultimately show ?thesis
    unfolding inRankedOrder_def by (intro conjI)
qed

text \<open>
  C5: the ranking operation (stable sort by the comparator, deduplication by URL,
  network-first partition, truncation to 10) is idempotent: ranking the output of a
  ranking returns it unchanged. More generally, a sequence of at most 10 records with
  pairwise different URLs that is in ranked order is returned unchanged.
\<close>

theorem rank_idempotent:
  "rank cDomain (rank cDomain rs) = rank cDomain rs \<and>
   (distinct (map url out) \<and> length out \<le> 10 \<and> inRankedOrder cDomain out \<longrightarrow>
    rank cDomain out = out)"
proof (intro conjI impI)
  show "rank cDomain out = out"
    if "distinct (map url out) \<and> length out \<le> 10 \<and> inRankedOrder cDomain out"
    using that unfolding inRankedOrder_def by (intro rank_fixed_point) blast+
  have "inRankedOrder cDomain (rank cDomain rs)" by (rule rank_inRankedOrder)
  moreover have "distinct (map url (rank cDomain rs))" by (rule distinct_url_rank)
  moreover have "length (rank cDomain rs) \<le> 10" by (simp add: rank_eq)
  ultimately show "rank cDomain (rank cDomain rs) = rank cDomain rs"
    unfolding inRankedOrder_def by (intro rank_fixed_point) blast+
qed

theorem rank_idempotent_witness:
  "distinct (map url
     [\<lparr>url = ''linkedin.com/in/a'', title = None, markdown = None, content = None\<rparr>,
      \<lparr>url = ''b.org/1'', title = None, markdown = Some ''two'', content = None\<rparr>]) \<and>
   inRankedOrder None
     [\<lparr>url = ''linkedin.com/in/a'', title = None, markdown = None, content = None\<rparr>,
      \<lparr>url = ''b.org/1'', title = None, markdown = Some ''two'', content = None\<rparr>] \<and>
   rank None
     [\<lparr>url = ''linkedin.com/in/a'', title = None, markdown = None, content = None\<rparr>,
      \<lparr>url = ''b.org/1'', title = None, markdown = Some ''two'', content = None\<rparr>] =
     [\<lparr>url = ''linkedin.com/in/a'', title = None, markdown = None, content = None\<rparr>,
      \<lparr>url = ''b.org/1'', title = None, markdown = Some ''two'', content = None\<rparr>]"
proof -
  let ?out = "[\<lparr>url = ''linkedin.com/in/a'', title = None, markdown = None, content = None\<rparr>,
      \<lparr>url = ''b.org/1'', title = None, markdown = Some ''two'', content = None\<rparr>]"
  have d: "distinct (map url ?out)" by simp
  have l: "length ?out \<le> 10" by simp
  have o: "inRankedOrder None ?out"
    by (simp add: inRankedOrder_def sortKey_def isLinkedIn_def isCompanySite_def)
  show ?thesis
    using d l o rank_idempotent [of None "[]" ?out] by blast
qed

text \<open>
  C3: the evidence handed to the extraction step (\<open>rank\<close>, which \<^verbatim>\<open>execute\<close> applies to
  the collected records) holds no URL twice, has at most 10 records, all of them records
  of the input, and holds every URL of the input when the input has at most 10 different
  URLs. Every record of the professional network comes before every record that is not
  of it, whatever the order of the input; this holds for the test of the final partition
  (the URL contains \<open>linkedin.com\<close>) and for the test of the comparator (the URL contains
  \<open>linkedin.com/in\<close> or \<open>linkedin.com/company\<close>).
\<close>

theorem rank_distinct_bounded_network_first:
  "distinct (map url (rank cDomain rs)) \<and>
   length (rank cDomain rs) \<le> 10 \<and>
   set (rank cDomain rs) \<subseteq> set rs \<and>
   (card (set (map url rs)) \<le> 10 \<longrightarrow> set (map url (rank cDomain rs)) = set (map url rs)) \<and>
   (\<forall>i j. i < j \<and> j < length (rank cDomain rs) \<and>
          str_includes (url (rank cDomain rs ! j)) ''linkedin.com'' \<longrightarrow>
          str_includes (url (rank cDomain rs ! i)) ''linkedin.com'') \<and>
   (\<forall>i j. i < j \<and> j < length (rank cDomain rs) \<and> isLinkedIn (rank cDomain rs ! j) \<longrightarrow>
          isLinkedIn (rank cDomain rs ! i))"
proof (intro conjI allI impI)
  show "distinct (map url (rank cDomain rs))" by (rule distinct_url_rank)
  show "length (rank cDomain rs) \<le> 10" by (simp add: rank_eq)
  show "set (rank cDomain rs) \<subseteq> set rs" by (rule set_rank)
  show "set (map url (rank cDomain rs)) = set (map url rs)"
    if "card (set (map url rs)) \<le> 10"
    using that by (rule rank_all_urls)
  show "str_includes (url (rank cDomain rs ! i)) ''linkedin.com''"
    if "i < j \<and> j < length (rank cDomain rs) \<and>
        str_includes (url (rank cDomain rs ! j)) ''linkedin.com''" for i j
    using that rank_networkHosted_first [of i j cDomain rs] by blast
  show "isLinkedIn (rank cDomain rs ! i)"
    if "i < j \<and> j < length (rank cDomain rs) \<and> isLinkedIn (rank cDomain rs ! j)" for i j
    using that rank_isLinkedIn_first [of i j cDomain rs] by blast
qed

lemmas rank_eval = rank_def prioritizedResults_def uniqueResults_def newMap_def
  rankedResults_def stableSort_def compareResults_def isLinkedIn_def isCompanySite_def

theorem rank_distinct_bounded_network_first_witness:
  "rank None
     [\<lparr>url = ''b.org/1'', title = None, markdown = Some ''one'', content = None\<rparr>,
      \<lparr>url = ''linkedin.com/in/a'', title = None, markdown = None, content = None\<rparr>,
      \<lparr>url = ''linkedin.com/in/c'', title = None, markdown = None, content = None\<rparr>,
      \<lparr>url = ''b.org/1'', title = None, markdown = Some ''two'', content = None\<rparr>] =
     [\<lparr>url = ''linkedin.com/in/a'', title = None, markdown = None, content = None\<rparr>,
      \<lparr>url = ''linkedin.com/in/c'', title = None, markdown = None, content = None\<rparr>,
      \<lparr>url = ''b.org/1'', title = None, markdown = Some ''two'', content = None\<rparr>] \<and>
   card (set [''b.org/1'', ''linkedin.com/in/a'', ''linkedin.com/in/c'', ''b.org/1'']) \<le> 10 \<and>
   set [''linkedin.com/in/a'', ''linkedin.com/in/c'', ''b.org/1''] =
     set [''b.org/1'', ''linkedin.com/in/a'', ''linkedin.com/in/c'', ''b.org/1''] \<and>
   str_includes ''linkedin.com/in/c'' ''linkedin.com'' \<and>
   str_includes ''linkedin.com/in/a'' ''linkedin.com'' \<and>
   isLinkedIn \<lparr>url = ''linkedin.com/in/c'', title = None, markdown = None, content = None\<rparr> \<and>
   isLinkedIn \<lparr>url = ''linkedin.com/in/a'', title = None, markdown = None, content = None\<rparr>"
proof -
  let ?input =
    "[\<lparr>url = ''b.org/1'', title = None, markdown = Some ''one'', content = None\<rparr>,
      \<lparr>url = ''linkedin.com/in/a'', title = None, markdown = None, content = None\<rparr>,
      \<lparr>url = ''linkedin.com/in/c'', title = None, markdown = None, content = None\<rparr>,
      \<lparr>url = ''b.org/1'', title = None, markdown = Some ''two'', content = None\<rparr>]"
  have out: "rank None ?input =
     [\<lparr>url = ''linkedin.com/in/a'', title = None, markdown = None, content = None\<rparr>,
      \<lparr>url = ''linkedin.com/in/c'', title = None, markdown = None, content = None\<rparr>,
      \<lparr>url = ''b.org/1'', title = None, markdown = Some ''two'', content = None\<rparr>]"
    by (simp add: rank_eval)
  have few: "card (set (map url ?input)) \<le> 10"
    using card_length [of "map url ?input"] by simp
  have hosted: "str_includes (url (rank None ?input ! 1)) ''linkedin.com''"
    and profile: "isLinkedIn (rank None ?input ! 1)"
    unfolding out by (simp_all add: isLinkedIn_def)
  note claim = rank_distinct_bounded_network_first [of None ?input]
  from claim few have urls: "set (map url (rank None ?input)) = set (map url ?input)"
    by blast
  from claim have
    "0 < (1::nat) \<and> 1 < length (rank None ?input) \<and>
       str_includes (url (rank None ?input ! 1)) ''linkedin.com'' \<longrightarrow>
     str_includes (url (rank None ?input ! 0)) ''linkedin.com''"
    by blast
  then have hosted0: "str_includes (url (rank None ?input ! 0)) ''linkedin.com''"
    using hosted by (simp add: out)
  from claim have
    "0 < (1::nat) \<and> 1 < length (rank None ?input) \<and> isLinkedIn (rank None ?input ! 1) \<longrightarrow>
     isLinkedIn (rank None ?input ! 0)"
    by blast
  then have profile0: "isLinkedIn (rank None ?input ! 0)"
    using profile by (simp add: out)
  show ?thesis
    using out few urls hosted hosted0 profile profile0 by (simp add: out)
qed

text \<open>
  C4, as the specification states it: of two records with the same URL the first
  survives with its content. The map is built by setting the entries from left to
  right, and a later entry replaces the value of an earlier one with the same key: of two
  records with one URL the deduplicated list holds the second.
\<close>

theorem dedup_later_content_counterexample:
  "uniqueResults (rankedResults None
     [\<lparr>url = ''https://a.com/x'', title = None, markdown = Some ''first'', content = None\<rparr>,
      \<lparr>url = ''https://a.com/x'', title = None, markdown = Some ''second'', content = None\<rparr>]) =
     [\<lparr>url = ''https://a.com/x'', title = None, markdown = Some ''second'', content = None\<rparr>]"
  by (simp add: rank_eval)

text \<open>
  C4, amended: deduplication keeps one record for each URL of the ranked list, at the
  position of the URL's first occurrence in the ranked order and with the content of its
  last occurrence there.
\<close>

theorem dedup_first_position_last_content:
  "uniqueResults (rankedResults cDomain rs) =
     map (lastWithUrl (rankedResults cDomain rs))
       (firstOccurrences (map url (rankedResults cDomain rs)))"
  by (rule uniqueResults_eq)

text \<open>
  Being sorted by the comparator's key alone is not the ranked order: the final partition
  moves a network-hosted page that is not a profile in front of a page of the company's
  site.
\<close>

lemma tier_sorted_not_fixed:
  "rank (Some ''acme.com'')
     [\<lparr>url = ''acme.com/about'', title = None, markdown = None, content = None\<rparr>,
      \<lparr>url = ''linkedin.com/pulse'', title = None, markdown = None, content = None\<rparr>] =
     [\<lparr>url = ''linkedin.com/pulse'', title = None, markdown = None, content = None\<rparr>,
      \<lparr>url = ''acme.com/about'', title = None, markdown = None, content = None\<rparr>]"
  by (simp add: rank_eval)

section \<open>Properties of the query synthesizer\<close>

lemmas string_eval = toLowerCase_def toLowerChar_def isExecutiveField_def executiveTitles_def
  extractTitle_def quoted_def pathParts_def

text \<open>
  C6: the scenario with the field \<open>ceo\<close> (Chief Executive Officer), the company
  \<open>Acme Corp\<close>, the domain \<open>acme.com\<close> and the anchor
  \<open>https://linkedin.com/company/acme-corp\<close>, for any URL parser that reads the path of
  the anchor as \<open>/company/acme-corp\<close>. The first two queries are the individual-profile
  queries for \<open>acme corp\<close> and \<open>Acme Corp\<close> with the title CEO, the \<open>about-us\<close> query of
  the domain is there, and the last-resort query comes last. The year in it is the
  literal 2025, whatever the date of the run: the query of a run in 2026 does not hold
  that year.
\<close>

theorem acme_scenario_queries:
  assumes "urlPathname ''https://linkedin.com/company/acme-corp'' = Some ''/company/acme-corp''"
  shows "buildLinkedInFirstQueries urlPathname
           [\<lparr>name = ''ceo'', description = ''Chief Executive Officer''\<rparr>]
           (Some ''Acme Corp'') (Some ''acme.com'')
           (Some ''https://linkedin.com/company/acme-corp'') =
         [''site:linkedin.com/in '' @ quoted ''acme corp'' @ '' CEO'',
          ''site:linkedin.com/in '' @ quoted ''Acme Corp'' @ '' CEO'',
          ''site:linkedin.com/in '' @ quoted ''CEO'' @ '' '' @ quoted ''Acme Corp'' @ '' current'',
          ''site:linkedin.com/in '' @ quoted ''Acme Corp'' @ '' leadership team'',
          ''site:linkedin.com/in '' @ quoted ''Acme Corp'' @ '' executives'',
          ''site:acme.com team leadership about executives'',
          ''site:acme.com about-us'',
          quoted ''Acme Corp'' @ '' CEO 2025''] \<and>
         \<not> str_includes
             (last (buildLinkedInFirstQueries urlPathname
                [\<lparr>name = ''ceo'', description = ''Chief Executive Officer''\<rparr>]
                (Some ''Acme Corp'') (Some ''acme.com'')
                (Some ''https://linkedin.com/company/acme-corp''))) ''2026''"
  using assms
  by (simp add: buildLinkedInFirstQueries_def extractLinkedInCompanyName_def string_eval)

theorem acme_scenario_queries_witness:
  "schemeHostPath ''https://linkedin.com/company/acme-corp'' = Some ''/company/acme-corp'' \<and>
   last (buildLinkedInFirstQueries schemeHostPath
           [\<lparr>name = ''ceo'', description = ''Chief Executive Officer''\<rparr>]
           (Some ''Acme Corp'') (Some ''acme.com'')
           (Some ''https://linkedin.com/company/acme-corp'')) = quoted ''Acme Corp'' @ '' CEO 2025''"
proof -
  have parsed: "schemeHostPath ''https://linkedin.com/company/acme-corp'' = Some ''/company/acme-corp''"
    by (simp add: schemeHostPath_def)
  show ?thesis
    using parsed acme_scenario_queries [of schemeHostPath] by simp
qed


text \<open>
  C10: when the anchor is not a parseable absolute URL, or the non-empty segments of its
  path do not start with \<open>company\<close> followed by another segment,
  \<^verbatim>\<open>extractLinkedInCompanyName\<close> returns the empty string; and for a non-empty anchor
  and at least one executive field the first synthesized query is then present and reads
  \<open>site:linkedin.com/in\<close>, a space, two double-quote characters with nothing between
  them, a space and the titles joined by \<open>OR\<close>.
\<close>

theorem unparseable_anchor_empty_name:
  assumes "\<forall>pathname. urlPathname linkedinUrl = Some pathname \<longrightarrow>
             (\<forall>segment rest. pathParts pathname \<noteq> ''company'' # segment # rest)"
  shows "extractLinkedInCompanyName urlPathname linkedinUrl = [] \<and>
         (linkedinUrl \<noteq> [] \<and> list_ex isExecutiveField flds \<longrightarrow>
          (\<exists>rest.
             buildLinkedInFirstQueries urlPathname flds cName cDomain
               (Some linkedinUrl) =
             (''site:linkedin.com/in '' @ [CHR 0x22, CHR 0x22] @ '' '' @
                join '' OR '' (filter (\<lambda>t. t \<noteq> [])
                                 (map extractTitle (filter isExecutiveField flds)))) # rest))"
proof -
  have empty: "extractLinkedInCompanyName urlPathname linkedinUrl = []"
    using assms
    by (auto simp: extractLinkedInCompanyName_def split: option.splits list.splits)
  have "filter isExecutiveField flds \<noteq> []" if "list_ex isExecutiveField flds"
    using that by (simp add: list_ex_iff filter_empty_conv)
  then show ?thesis
    using empty by (simp add: buildLinkedInFirstQueries_def quoted_def Let_def)
qed

theorem unparseable_anchor_empty_name_witness:
  "schemeHostPath ''linkedin.com/company/acme-corp'' = None \<and>
   extractLinkedInCompanyName schemeHostPath ''linkedin.com/company/acme-corp'' = [] \<and>
   hd (buildLinkedInFirstQueries schemeHostPath
         [\<lparr>name = ''ceo'', description = ''Chief Executive Officer''\<rparr>]
         (Some ''Acme Corp'') (Some ''acme.com'') (Some ''linkedin.com/company/acme-corp'')) =
     ''site:linkedin.com/in '' @ [CHR 0x22, CHR 0x22] @ '' CEO'' \<and>
   schemeHostPath ''https://linkedin.com/in/john-doe'' = Some ''/in/john-doe'' \<and>
   pathParts ''/in/john-doe'' = [''in'', ''john-doe''] \<and>
   hd (buildLinkedInFirstQueries schemeHostPath
         [\<lparr>name = ''ceo'', description = ''Chief Executive Officer''\<rparr>]
         (Some ''Acme Corp'') (Some ''acme.com'') (Some ''https://linkedin.com/in/john-doe'')) =
     ''site:linkedin.com/in '' @ [CHR 0x22, CHR 0x22] @ '' CEO''"
proof -
  let ?flds = "[\<lparr>name = ''ceo'', description = ''Chief Executive Officer''\<rparr>]"
  have unparsed: "schemeHostPath ''linkedin.com/company/acme-corp'' = None"
    by (simp add: schemeHostPath_def)
  have profile: "schemeHostPath ''https://linkedin.com/in/john-doe'' = Some ''/in/john-doe''"
    by (simp add: schemeHostPath_def)
  have parts: "pathParts ''/in/john-doe'' = [''in'', ''john-doe'']"
    by (simp add: pathParts_def)
  have exec: "list_ex isExecutiveField ?flds"
    by (simp add: string_eval)
  have titles: "join '' OR '' (filter (\<lambda>t. t \<noteq> []) (map extractTitle (filter isExecutiveField ?flds))) =
                ''CEO''"
    by (simp add: string_eval)
  have first:
    "\<exists>rest. buildLinkedInFirstQueries schemeHostPath ?flds (Some ''Acme Corp'') (Some ''acme.com'')
              (Some ''linkedin.com/company/acme-corp'') =
            (''site:linkedin.com/in '' @ [CHR 0x22, CHR 0x22] @ '' '' @ ''CEO'') # rest"
    and name1: "extractLinkedInCompanyName schemeHostPath ''linkedin.com/company/acme-corp'' = []"
    using unparsed exec
      unparseable_anchor_empty_name [of schemeHostPath "''linkedin.com/company/acme-corp''"
        ?flds "Some ''Acme Corp''" "Some ''acme.com''"]
    unfolding titles by simp_all
  have second:
    "\<exists>rest. buildLinkedInFirstQueries schemeHostPath ?flds (Some ''Acme Corp'') (Some ''acme.com'')
              (Some ''https://linkedin.com/in/john-doe'') =
            (''site:linkedin.com/in '' @ [CHR 0x22, CHR 0x22] @ '' '' @ ''CEO'') # rest"
    using profile parts exec
      unparseable_anchor_empty_name [of schemeHostPath "''https://linkedin.com/in/john-doe''"
        ?flds "Some ''Acme Corp''" "Some ''acme.com''"]
    unfolding titles by simp
  from first obtain rest1 where
    q1: "buildLinkedInFirstQueries schemeHostPath ?flds (Some ''Acme Corp'') (Some ''acme.com'')
              (Some ''linkedin.com/company/acme-corp'') =
            (''site:linkedin.com/in '' @ [CHR 0x22, CHR 0x22] @ '' '' @ ''CEO'') # rest1"
    by blast
  from second obtain rest2 where
    q2: "buildLinkedInFirstQueries schemeHostPath ?flds (Some ''Acme Corp'') (Some ''acme.com'')
              (Some ''https://linkedin.com/in/john-doe'') =
            (''site:linkedin.com/in '' @ [CHR 0x22, CHR 0x22] @ '' '' @ ''CEO'') # rest2"
    by blast
  show ?thesis
    unfolding q1 q2 using unparsed profile parts name1 by simp
qed

section \<open>Properties of the orchestration and of the collector\<close>

lemma execute_short_circuit:
  "\<not> truthy (resolveCompanyName context) \<Longrightarrow> \<not> truthy (resolveCompanyDomain context) \<Longrightarrow>
   execute urlPathname tools context flds s = (Inr Map.empty, s)"
  by (simp add: execute_def)

text \<open>
  C1: when the context defines no company name (neither \<^verbatim>\<open>companyName\<close> nor
  \<^verbatim>\<open>discoveredData.companyName\<close> nor \<^verbatim>\<open>emailContext.companyNameGuess\<close>) and no
  company domain (\<^verbatim>\<open>emailContext.companyDomain\<close>), \<^verbatim>\<open>execute\<close> returns the empty
  mapping and leaves the world and the log of calls as they were: no call to search,
  scrape or the extraction engine is issued, whatever the fields and the collaborators.
\<close>

theorem execute_without_identity:
  assumes "companyName context = None"
    and "\<forall>d. discoveredData context = Some d \<longrightarrow> d ''companyName'' = None"
    and "\<forall>e. emailContext context = Some e \<longrightarrow>
               companyNameGuess e = None \<and> companyDomain e = None"
  shows "execute urlPathname tools context flds (w, calls) = (Inr Map.empty, (w, calls))"
proof -
  have "resolveCompanyName context = None"
    using assms by (simp add: resolveCompanyName_def js_or_def split: option.splits)
  moreover have "resolveCompanyDomain context = None"
    using assms by (simp add: resolveCompanyDomain_def split: option.splits)
  ultimately show ?thesis
    by (simp add: execute_short_circuit)
qed

theorem execute_without_identity_witness:
  "execute schemeHostPath flakyTools
     \<lparr>companyName = None, discoveredData = Some Map.empty,
      emailContext = Some \<lparr>companyDomain = None, companyNameGuess = None\<rparr>\<rparr>
     [\<lparr>name = ''ceo'', description = ''Chief Executive Officer''\<rparr>] (0, []) =
   (Inr Map.empty, (0, []))"
  using execute_without_identity [of
      "\<lparr>companyName = None, discoveredData = Some Map.empty,
        emailContext = Some \<lparr>companyDomain = None, companyNameGuess = None\<rparr>\<rparr>"
      schemeHostPath flakyTools
      "[\<lparr>name = ''ceo'', description = ''Chief Executive Officer''\<rparr>]" 0 "[]"]
  by simp

lemma execute_returns:
  "\<exists>res s'. execute urlPathname tools context flds s = (Inr res, s')"
  by (auto simp: execute_def Let_def split: prod.splits completion.splits)

lemma executeTry_throw_empty:
  assumes "executeTry urlPathname tools context flds cName cDomain s = ((Throw err, partial), s')"
  shows "partial = Map.empty"
  using assms
  by (auto simp: executeTry_def Let_def split: prod.splits sum.splits if_splits)

text \<open>
  C2: \<^verbatim>\<open>execute\<close> never throws to its caller: for every input and whatever the
  collaborators do, its result is a mapping. When the \<^verbatim>\<open>try\<close> block throws, that is when
  an error reaches the top level, \<^verbatim>\<open>execute\<close> returns the \<^verbatim>\<open>results\<close> assembled so far,
  which is then the empty mapping.
\<close>

theorem execute_never_raises:
  "(\<exists>res s'. execute urlPathname tools context flds s = (Inr res, s')) \<and>
   (\<forall>err partial s'.
      (truthy (resolveCompanyName context) \<or> truthy (resolveCompanyDomain context)) \<and>
      executeTry urlPathname tools context flds
        (resolveCompanyName context) (resolveCompanyDomain context) s =
        ((Throw err, partial), s') \<longrightarrow>
      execute urlPathname tools context flds s = (Inr partial, s') \<and> partial = Map.empty)"
proof (intro conjI allI impI)
  show "\<exists>res s'. execute urlPathname tools context flds s = (Inr res, s')"
    by (rule execute_returns)
next
  fix err partial s'
  assume a: "(truthy (resolveCompanyName context) \<or> truthy (resolveCompanyDomain context)) \<and>
      executeTry urlPathname tools context flds
        (resolveCompanyName context) (resolveCompanyDomain context) s =
        ((Throw err, partial), s')"
  then show "execute urlPathname tools context flds s = (Inr partial, s')"
    by (auto simp: execute_def Let_def)
  from a show "partial = Map.empty"
    using executeTry_throw_empty by blast
qed


lemmas collaborator_eval = callSearch_def callScrape_def callExtract_def flakyTools_def
  downTools_def

theorem execute_never_raises_witness:
  "fst (fst (executeTry schemeHostPath flakyTools
               \<lparr>companyName = Some ''Acme'', discoveredData = None, emailContext = None\<rparr>
               [\<lparr>name = ''revenue'', description = []\<rparr>] (Some ''Acme'') None (0, []))) =
     Throw (Error ''engine down'') \<and>
   fst (execute schemeHostPath flakyTools
          \<lparr>companyName = Some ''Acme'', discoveredData = None, emailContext = None\<rparr>
          [\<lparr>name = ''revenue'', description = []\<rparr>] (0, [])) = Inr Map.empty"
proof -
  let ?ctx = "\<lparr>companyName = Some ''Acme'', discoveredData = None, emailContext = None\<rparr>"
  let ?flds = "[\<lparr>name = ''revenue'', description = []\<rparr>]"
  have resolved: "resolveCompanyName ?ctx = Some ''Acme''"
    "resolveCompanyDomain ?ctx = None"
    by (simp_all add: resolveCompanyName_def resolveCompanyDomain_def js_or_def)
  have thrown: "fst (fst (executeTry schemeHostPath flakyTools ?ctx ?flds
                            (Some ''Acme'') None (0, []))) = Throw (Error ''engine down'')"
    by (simp add: executeTry_def findCompanyLinkedInPage_def collectEvidence_def
          buildLinkedInFirstQueries_def getSearchTermsForField_def collaborator_eval
          string_eval rank_eval Let_def)
  then obtain partial s'
    where thrown_at: "executeTry schemeHostPath flakyTools ?ctx ?flds (Some ''Acme'') None (0, []) =
                  ((Throw (Error ''engine down''), partial), s')"
    by (metis prod.collapse)
  have "\<forall>err partial s'.
      (truthy (resolveCompanyName ?ctx) \<or> truthy (resolveCompanyDomain ?ctx)) \<and>
      executeTry schemeHostPath flakyTools ?ctx ?flds
        (resolveCompanyName ?ctx) (resolveCompanyDomain ?ctx) (0, []) =
        ((Throw err, partial), s') \<longrightarrow>
      execute schemeHostPath flakyTools ?ctx ?flds (0, []) = (Inr partial, s') \<and>
      partial = Map.empty"
    using execute_never_raises [of schemeHostPath flakyTools ?ctx ?flds "(0, [])"]
    by (rule conjunct2)
  moreover have "(truthy (resolveCompanyName ?ctx) \<or> truthy (resolveCompanyDomain ?ctx)) \<and>
      executeTry schemeHostPath flakyTools ?ctx ?flds
        (resolveCompanyName ?ctx) (resolveCompanyDomain ?ctx) (0, []) =
        ((Throw (Error ''engine down''), partial), s')"
    using thrown_at by (simp add: resolved)
  ultimately have "execute schemeHostPath flakyTools ?ctx ?flds (0, []) = (Inr partial, s') \<and>
      partial = Map.empty"
    by blast
  then show ?thesis using thrown by simp
qed

lemma searchAll_calls:
  "snd (snd (searchAll tools queries found s)) = snd s @ map (\<lambda>q. Search q 3) queries"
proof (induction queries arbitrary: found s)
  case Nil
  then show ?case by simp
next
  case (Cons query queries)
  obtain outcome s' where c: "callSearch tools query 3 s = (outcome, s')"
    by (cases "callSearch tools query 3 s")
  then have "snd s' = snd s @ [Search query 3]"
    by (auto simp: callSearch_def split: prod.splits)
  then show ?case
    using c Cons.IH by (cases outcome) simp_all
qed

lemma scrapePages_three:
  assumes "callScrape tools page1 s0 = (r1, s1)"
    and "callScrape tools page2 s1 = (r2, s2)"
    and "callScrape tools page3 s2 = (r3, s3)"
  shows "r1 = Inr scraped1 \<and> pageOk r1 \<longrightarrow>
           scrapePages tools [page1, page2, page3] found s0 =
             (found @ [leadershipRecord page1 scraped1], s1)"
    and "\<not> pageOk r1 \<and> r2 = Inr scraped2 \<and> pageOk r2 \<longrightarrow>
           scrapePages tools [page1, page2, page3] found s0 =
             (found @ [leadershipRecord page2 scraped2], s2)"
    and "\<not> pageOk r1 \<and> \<not> pageOk r2 \<and> r3 = Inr scraped3 \<and> pageOk r3 \<longrightarrow>
           scrapePages tools [page1, page2, page3] found s0 =
             (found @ [leadershipRecord page3 scraped3], s3)"
    and "\<not> pageOk r1 \<and> \<not> pageOk r2 \<and> \<not> pageOk r3 \<longrightarrow>
           scrapePages tools [page1, page2, page3] found s0 = (found, s3)"
  using assms
  by (auto simp: pageOk_def leadershipRecord_def split: sum.splits)

lemma callScrape_calls: "callScrape tools pageUrl s = (r, s') \<Longrightarrow> snd s' = snd s @ [Scrape pageUrl]"
  by (auto simp: callScrape_def split: prod.splits)

lemma searchAll_records:
  "fst (searchAll tools queries found s) =
     found @ concat (map searchRecords (searchTrace tools queries (fst s)))"
proof (induction queries arbitrary: found s)
  case Nil
  then show ?case by simp
next
  case (Cons query queries)
  obtain outcome w' where c: "search tools query 3 (fst s) = (outcome, w')"
    by (cases "search tools query 3 (fst s)")
  show ?case
  proof (cases outcome)
    case (Inl err)
    then show ?thesis
      using c Cons.IH [of found "(w', snd s @ [Search query 3])"]
      by (simp add: callSearch_def)
  next
    case (Inr records)
    then show ?thesis
      using c Cons.IH [of "found @ records" "(w', snd s @ [Search query 3])"]
        Cons.IH [of found "(w', snd s @ [Search query 3])"]
      by (cases records) (simp_all add: callSearch_def)
  qed
qed

text \<open>
  C9: the evidence collector has no error to return, every failure of a call is handled
  where it happens. A query whose search fails adds no record and the remaining queries
  run from the state the failed call left; a query whose search returns adds its records
  at the end; so the loop returns, in order, the records of the searches that returned,
  and every query is issued once, in order. With a domain and an executive field the
  pages \<open>/about\<close>, \<open>/team\<close>, \<open>/leadership\<close> are scraped in that order up to the first
  that counts (the call returns, with success and a non-empty content), whose record
  titled \<open>Company Leadership Page\<close> is appended to the records of the searches; when none
  of the three counts, the collector returns exactly the records of the searches.
\<close>

theorem collector_recovers:
  "(callSearch tools query 3 s = (Inl err, s') \<longrightarrow>
      searchAll tools (query # queries) found s = searchAll tools queries found s') \<and>
   (callSearch tools query 3 s = (Inr records, s') \<longrightarrow>
      searchAll tools (query # queries) found s = searchAll tools queries (found @ records) s') \<and>
   fst (searchAll tools queries found s) =
     found @ concat (map searchRecords (searchTrace tools queries (fst s))) \<and>
   snd (snd (searchAll tools queries found s)) = snd s @ map (\<lambda>q. Search q 3) queries \<and>
   (truthy cDomain \<and> hasExecutiveFields flds \<and>
    searchAll tools queries [] s = (searched, s0) \<and>
    callScrape tools (''https://'' @ render cDomain @ ''/about'') s0 = (r1, s1) \<and>
    callScrape tools (''https://'' @ render cDomain @ ''/team'') s1 = (r2, s2) \<and>
    callScrape tools (''https://'' @ render cDomain @ ''/leadership'') s2 = (r3, s3) \<longrightarrow>
    searched = concat (map searchRecords (searchTrace tools queries (fst s))) \<and>
    (r1 = Inr scraped1 \<and> pageOk r1 \<longrightarrow>
       collectEvidence tools queries cDomain flds s =
         (concat (map searchRecords (searchTrace tools queries (fst s))) @
            [\<lparr>url = ''https://'' @ render cDomain @ ''/about'',
              title = Some ''Company Leadership Page'',
              markdown = scrapedMarkdown scraped1, content = scrapedMarkdown scraped1\<rparr>],
          s1) \<and>
       snd s1 = snd s0 @ [Scrape (''https://'' @ render cDomain @ ''/about'')]) \<and>
    (\<not> pageOk r1 \<and> r2 = Inr scraped2 \<and> pageOk r2 \<longrightarrow>
       collectEvidence tools queries cDomain flds s =
         (concat (map searchRecords (searchTrace tools queries (fst s))) @
            [\<lparr>url = ''https://'' @ render cDomain @ ''/team'',
              title = Some ''Company Leadership Page'',
              markdown = scrapedMarkdown scraped2, content = scrapedMarkdown scraped2\<rparr>],
          s2) \<and>
       snd s2 = snd s0 @ [Scrape (''https://'' @ render cDomain @ ''/about''),
                          Scrape (''https://'' @ render cDomain @ ''/team'')]) \<and>
    (\<not> pageOk r1 \<and> \<not> pageOk r2 \<and> r3 = Inr scraped3 \<and> pageOk r3 \<longrightarrow>
       collectEvidence tools queries cDomain flds s =
         (concat (map searchRecords (searchTrace tools queries (fst s))) @
            [\<lparr>url = ''https://'' @ render cDomain @ ''/leadership'',
              title = Some ''Company Leadership Page'',
              markdown = scrapedMarkdown scraped3, content = scrapedMarkdown scraped3\<rparr>],
          s3)) \<and>
    (\<not> pageOk r1 \<and> \<not> pageOk r2 \<and> \<not> pageOk r3 \<longrightarrow>
       collectEvidence tools queries cDomain flds s =
         (concat (map searchRecords (searchTrace tools queries (fst s))), s3)) \<and>
    snd s3 = snd s0 @ [Scrape (''https://'' @ render cDomain @ ''/about''),
                       Scrape (''https://'' @ render cDomain @ ''/team''),
                       Scrape (''https://'' @ render cDomain @ ''/leadership'')])"
proof (intro conjI impI)
  show "searchAll tools (query # queries) found s = searchAll tools queries found s'"
    if "callSearch tools query 3 s = (Inl err, s')"
    using that by simp
  show "searchAll tools (query # queries) found s = searchAll tools queries (found @ records) s'"
    if "callSearch tools query 3 s = (Inr records, s')"
    using that by (cases records) simp_all
  show "fst (searchAll tools queries found s) =
          found @ concat (map searchRecords (searchTrace tools queries (fst s)))"
    by (rule searchAll_records)
  show "snd (snd (searchAll tools queries found s)) = snd s @ map (\<lambda>q. Search q 3) queries"
    by (rule searchAll_calls)
next
  assume a: "truthy cDomain \<and> hasExecutiveFields flds \<and>
    searchAll tools queries [] s = (searched, s0) \<and>
    callScrape tools (''https://'' @ render cDomain @ ''/about'') s0 = (r1, s1) \<and>
    callScrape tools (''https://'' @ render cDomain @ ''/team'') s1 = (r2, s2) \<and>
    callScrape tools (''https://'' @ render cDomain @ ''/leadership'') s2 = (r3, s3)"
  then have c1: "callScrape tools (''https://'' @ render cDomain @ ''/about'') s0 = (r1, s1)"
    and c2: "callScrape tools (''https://'' @ render cDomain @ ''/team'') s1 = (r2, s2)"
    and c3: "callScrape tools (''https://'' @ render cDomain @ ''/leadership'') s2 = (r3, s3)"
    by simp_all
  from a have "fst (searchAll tools queries [] s) = searched" by simp
  then show pinned: "searched = concat (map searchRecords (searchTrace tools queries (fst s)))"
    using searchAll_records [of tools queries "[]" s] by simp
  from a have collect: "collectEvidence tools queries cDomain flds s =
      scrapePages tools
        [''https://'' @ render cDomain @ ''/about'', ''https://'' @ render cDomain @ ''/team'',
         ''https://'' @ render cDomain @ ''/leadership'']
        (concat (map searchRecords (searchTrace tools queries (fst s)))) s0"
    unfolding pinned [symmetric] by (simp add: collectEvidence_def leadershipPages_def)
  note three = scrapePages_three [OF c1 c2 c3,
      where found = "concat (map searchRecords (searchTrace tools queries (fst s)))",
      unfolded leadershipRecord_def]
  note l1 = callScrape_calls [OF c1] and l2 = callScrape_calls [OF c2]
    and l3 = callScrape_calls [OF c3]
  {
    assume "r1 = Inr scraped1 \<and> pageOk r1"
    then show "collectEvidence tools queries cDomain flds s =
         (concat (map searchRecords (searchTrace tools queries (fst s))) @
            [\<lparr>url = ''https://'' @ render cDomain @ ''/about'',
              title = Some ''Company Leadership Page'',
              markdown = scrapedMarkdown scraped1, content = scrapedMarkdown scraped1\<rparr>],
          s1)"
      unfolding collect using three(1) by blast
    show "snd s1 = snd s0 @ [Scrape (''https://'' @ render cDomain @ ''/about'')]"
      by (rule l1)
  }
  {
    assume "\<not> pageOk r1 \<and> r2 = Inr scraped2 \<and> pageOk r2"
    then show "collectEvidence tools queries cDomain flds s =
         (concat (map searchRecords (searchTrace tools queries (fst s))) @
            [\<lparr>url = ''https://'' @ render cDomain @ ''/team'',
              title = Some ''Company Leadership Page'',
              markdown = scrapedMarkdown scraped2, content = scrapedMarkdown scraped2\<rparr>],
          s2)"
      unfolding collect using three(2) by blast
    show "snd s2 = snd s0 @ [Scrape (''https://'' @ render cDomain @ ''/about''),
                          Scrape (''https://'' @ render cDomain @ ''/team'')]"
      using l1 l2 by simp
  }
  {
    assume "\<not> pageOk r1 \<and> \<not> pageOk r2 \<and> r3 = Inr scraped3 \<and> pageOk r3"
    then show "collectEvidence tools queries cDomain flds s =
         (concat (map searchRecords (searchTrace tools queries (fst s))) @
            [\<lparr>url = ''https://'' @ render cDomain @ ''/leadership'',
              title = Some ''Company Leadership Page'',
              markdown = scrapedMarkdown scraped3, content = scrapedMarkdown scraped3\<rparr>],
          s3)"
      unfolding collect using three(3) by blast
  }
  {
    assume "\<not> pageOk r1 \<and> \<not> pageOk r2 \<and> \<not> pageOk r3"
    then show "collectEvidence tools queries cDomain flds s =
         (concat (map searchRecords (searchTrace tools queries (fst s))), s3)"
      unfolding collect using three(4) by blast
  }
  show "snd s3 = snd s0 @ [Scrape (''https://'' @ render cDomain @ ''/about''),
                       Scrape (''https://'' @ render cDomain @ ''/team''),
                       Scrape (''https://'' @ render cDomain @ ''/leadership'')]"
    using l1 l2 l3 by simp
qed


theorem collector_recovers_witness:
  "collectEvidence flakyTools [''q1'', ''q2''] (Some ''acme.com'')
     [\<lparr>name = ''ceo'', description = ''Chief Executive Officer''\<rparr>] (0, []) =
     ([\<lparr>url = ''https://b.org/news'', title = None, markdown = Some ''text'', content = None\<rparr>,
       \<lparr>url = ''https://acme.com/leadership'', title = Some ''Company Leadership Page'',
        markdown = Some ''Jane Doe, CEO'', content = Some ''Jane Doe, CEO''\<rparr>],
      (5, [Search ''q1'' 3, Search ''q2'' 3, Scrape ''https://acme.com/about'',
           Scrape ''https://acme.com/team'', Scrape ''https://acme.com/leadership''])) \<and>
   collectEvidence downTools [''q1'', ''q2''] (Some ''acme.com'')
     [\<lparr>name = ''ceo'', description = ''Chief Executive Officer''\<rparr>] (0, []) =
     ([], (5, [Search ''q1'' 3, Search ''q2'' 3, Scrape ''https://acme.com/about'',
               Scrape ''https://acme.com/team'', Scrape ''https://acme.com/leadership''])) \<and>
   fst (searchAll flakyTools [''q2'', ''q1'', ''q3''] [] (0, [])) =
     [\<lparr>url = ''https://b.org/news'', title = None, markdown = Some ''text'', content = None\<rparr>,
      \<lparr>url = ''https://b.org/news'', title = None, markdown = Some ''text'', content = None\<rparr>]"
proof -
  let ?flds = "[\<lparr>name = ''ceo'', description = ''Chief Executive Officer''\<rparr>]"
  let ?news = "\<lparr>url = ''https://b.org/news'', title = None, markdown = Some ''text'',
                 content = None\<rparr>"
  let ?page = "\<lparr>success = True, scrapedMarkdown = Some ''Jane Doe, CEO'', html = None\<rparr>"
  let ?s0 = "(2::nat, [Search ''q1'' 3, Search ''q2'' 3])"
  let ?s1 = "(3::nat, [Search ''q1'' 3, Search ''q2'' 3, Scrape ''https://acme.com/about''])"
  let ?s2 = "(4::nat, [Search ''q1'' 3, Search ''q2'' 3, Scrape ''https://acme.com/about'',
                      Scrape ''https://acme.com/team''])"
  let ?s3 = "(5::nat, [Search ''q1'' 3, Search ''q2'' 3, Scrape ''https://acme.com/about'',
                      Scrape ''https://acme.com/team'', Scrape ''https://acme.com/leadership''])"
  have exec: "truthy (Some ''acme.com'')" "hasExecutiveFields ?flds"
    by (simp_all add: hasExecutiveFields_def string_eval)
  have failed: "callSearch flakyTools ''q1'' 3 (0, []) = (Inl (Error ''timeout''), (1, [Search ''q1'' 3]))"
    by (simp add: collaborator_eval)
  have "searchAll flakyTools (''q1'' # [''q2'']) [] (0, []) =
        searchAll flakyTools [''q2''] [] (1, [Search ''q1'' 3])"
    using failed
    by (rule collector_recovers [where tools = flakyTools and query = "''q1''" and s = "(0, [])"
        and err = "Error ''timeout''" and s' = "(1, [Search ''q1'' 3])" and queries = "[''q2'']"
        and found = "[]", THEN conjunct1, THEN mp])
  then have searched: "searchAll flakyTools [''q1'', ''q2''] [] (0, []) = ([?news], ?s0)"
    by (simp add: collaborator_eval)
  have trace: "concat (map searchRecords (searchTrace flakyTools [''q1'', ''q2''] (fst (0::nat, []::call list)))) =
               [?news]"
    by (simp add: flakyTools_def)
  have about: "callScrape flakyTools (''https://'' @ render (Some ''acme.com'') @ ''/about'') ?s0 =
                 (Inl (Error ''404''), ?s1)"
    and team: "callScrape flakyTools (''https://'' @ render (Some ''acme.com'') @ ''/team'') ?s1 =
                 (Inr \<lparr>success = False, scrapedMarkdown = None, html = None\<rparr>, ?s2)"
    and leadership:
      "callScrape flakyTools (''https://'' @ render (Some ''acme.com'') @ ''/leadership'') ?s2 =
         (Inr ?page, ?s3)"
    by (simp_all add: collaborator_eval)
  have ok: "\<not> pageOk (Inl (Error ''404''))"
    "\<not> pageOk (Inr \<lparr>success = False, scrapedMarkdown = None, html = None\<rparr>)"
    "pageOk (Inr ?page)"
    by (simp_all add: pageOk_def)
  have "collectEvidence flakyTools [''q1'', ''q2''] (Some ''acme.com'') ?flds (0, []) =
          (concat (map searchRecords (searchTrace flakyTools [''q1'', ''q2''] (fst (0::nat, []::call list)))) @
             [\<lparr>url = ''https://'' @ render (Some ''acme.com'') @ ''/leadership'',
               title = Some ''Company Leadership Page'',
               markdown = scrapedMarkdown ?page, content = scrapedMarkdown ?page\<rparr>],
           ?s3)"
  proof -
    have runs: "truthy (Some ''acme.com'') \<and> hasExecutiveFields ?flds \<and>
      searchAll flakyTools [''q1'', ''q2''] [] (0, []) = ([?news], ?s0) \<and>
      callScrape flakyTools (''https://'' @ render (Some ''acme.com'') @ ''/about'') ?s0 =
        (Inl (Error ''404''), ?s1) \<and>
      callScrape flakyTools (''https://'' @ render (Some ''acme.com'') @ ''/team'') ?s1 =
        (Inr \<lparr>success = False, scrapedMarkdown = None, html = None\<rparr>, ?s2) \<and>
      callScrape flakyTools (''https://'' @ render (Some ''acme.com'') @ ''/leadership'') ?s2 =
        (Inr ?page, ?s3)"
      using exec searched about team leadership by (intro conjI)
    have third_counts: "\<not> pageOk (Inl (Error ''404'')) \<and>
      \<not> pageOk (Inr \<lparr>success = False, scrapedMarkdown = None, html = None\<rparr>) \<and>
      (Inr ?page :: error + ScrapeResult) = Inr ?page \<and> pageOk (Inr ?page)"
      using ok by simp
    show ?thesis
      by (rule collector_recovers [where tools = flakyTools and queries = "[''q1'', ''q2'']"
        and cDomain = "Some ''acme.com''" and flds = ?flds and s = "(0, [])"
        and searched = "[?news]" and ?s0.0 = ?s0 and ?s1.0 = ?s1 and ?s2.0 = ?s2 and ?s3.0 = ?s3
        and ?r1.0 = "Inl (Error ''404'')"
        and ?r2.0 = "Inr \<lparr>success = False, scrapedMarkdown = None, html = None\<rparr>"
        and ?r3.0 = "Inr ?page" and ?scraped3.0 = ?page,
        THEN conjunct2, THEN conjunct2, THEN conjunct2, THEN conjunct2, THEN mp, OF runs,
        THEN conjunct2, THEN conjunct2, THEN conjunct2, THEN conjunct1, THEN mp, OF third_counts])
  qed
  then have first: "collectEvidence flakyTools [''q1'', ''q2''] (Some ''acme.com'') ?flds (0, []) =
     ([?news,
       \<lparr>url = ''https://acme.com/leadership'', title = Some ''Company Leadership Page'',
        markdown = Some ''Jane Doe, CEO'', content = Some ''Jane Doe, CEO''\<rparr>], ?s3)"
    unfolding trace by simp
  have dsearched: "searchAll downTools [''q1'', ''q2''] [] (0, []) = ([], ?s0)"
    by (simp add: collaborator_eval)
  have dtrace: "concat (map searchRecords (searchTrace downTools [''q1'', ''q2''] (fst (0::nat, []::call list)))) = []"
    by (simp add: downTools_def)
  have dabout: "callScrape downTools (''https://'' @ render (Some ''acme.com'') @ ''/about'') ?s0 =
                 (Inl (Error ''down''), ?s1)"
    and dteam: "callScrape downTools (''https://'' @ render (Some ''acme.com'') @ ''/team'') ?s1 =
                 (Inl (Error ''down''), ?s2)"
    and dleadership:
      "callScrape downTools (''https://'' @ render (Some ''acme.com'') @ ''/leadership'') ?s2 =
         (Inl (Error ''down''), ?s3)"
    by (simp_all add: collaborator_eval)
  have dok: "\<not> pageOk (Inl (Error ''down''))"
    by (simp add: pageOk_def)
  have "collectEvidence downTools [''q1'', ''q2''] (Some ''acme.com'') ?flds (0, []) =
          (concat (map searchRecords (searchTrace downTools [''q1'', ''q2''] (fst (0::nat, []::call list)))), ?s3)"
  proof -
    have runs: "truthy (Some ''acme.com'') \<and> hasExecutiveFields ?flds \<and>
      searchAll downTools [''q1'', ''q2''] [] (0, []) = ([], ?s0) \<and>
      callScrape downTools (''https://'' @ render (Some ''acme.com'') @ ''/about'') ?s0 =
        (Inl (Error ''down''), ?s1) \<and>
      callScrape downTools (''https://'' @ render (Some ''acme.com'') @ ''/team'') ?s1 =
        (Inl (Error ''down''), ?s2) \<and>
      callScrape downTools (''https://'' @ render (Some ''acme.com'') @ ''/leadership'') ?s2 =
        (Inl (Error ''down''), ?s3)"
      using exec dsearched dabout dteam dleadership by (intro conjI)
    have none_counts: "\<not> pageOk (Inl (Error ''down'')) \<and> \<not> pageOk (Inl (Error ''down'')) \<and>
      \<not> pageOk (Inl (Error ''down''))"
      using dok by simp
    show ?thesis
      by (rule collector_recovers [where tools = downTools and queries = "[''q1'', ''q2'']"
        and cDomain = "Some ''acme.com''" and flds = ?flds and s = "(0, [])"
        and searched = "[]" and ?s0.0 = ?s0 and ?s1.0 = ?s1 and ?s2.0 = ?s2 and ?s3.0 = ?s3
        and ?r1.0 = "Inl (Error ''down'')" and ?r2.0 = "Inl (Error ''down'')"
        and ?r3.0 = "Inl (Error ''down'')",
        THEN conjunct2, THEN conjunct2, THEN conjunct2, THEN conjunct2, THEN mp, OF runs,
        THEN conjunct2, THEN conjunct2, THEN conjunct2, THEN conjunct2, THEN conjunct1,
        THEN mp, OF none_counts])
  qed
  then have second: "collectEvidence downTools [''q1'', ''q2''] (Some ''acme.com'') ?flds (0, []) =
          ([], ?s3)"
    unfolding dtrace .
  have "fst (searchAll flakyTools [''q2'', ''q1'', ''q3''] [] (0, [])) =
          [] @ concat (map searchRecords
                         (searchTrace flakyTools [''q2'', ''q1'', ''q3''] (fst (0::nat, []::call list))))"
    by (rule collector_recovers [where tools = flakyTools and queries = "[''q2'', ''q1'', ''q3'']"
        and found = "[]" and s = "(0, [])", THEN conjunct2, THEN conjunct2, THEN conjunct1])
  then have third: "fst (searchAll flakyTools [''q2'', ''q1'', ''q3''] [] (0, [])) = [?news, ?news]"
    by (simp add: flakyTools_def)
  show ?thesis using first second third by simp
qed

end
